theory Spec2Isabelle
  imports Main "HOL-Library.Sublist"
begin

section \<open>The HTML to PDF batch converter of \<^verbatim>\<open>pdf_converter.py\<close>\<close>

text \<open>
  The class \<^verbatim>\<open>HTMLToPDFConverter\<close> drives a headless browser through Playwright and
  merges the captured pages with PyPDF2. Everything it does is an effect on the converter
  object, on the browser or on the filesystem, so the embedding is a state and exception
  monad over one record: the two fields of the object, the regular files of the
  filesystem, the browser processes and page contexts that are alive, the log, and the
  trace of the calls made to the outside world.

  Whether a call to the outside world succeeds is not decided by the program. It is read
  from an environment: \<open>succeeds e n c\<close> says whether the call \<open>c\<close>, issued when \<open>n\<close>
  calls have been made before it, returns normally. A theorem that quantifies over the
  environment therefore covers every pattern of failures of the browser and of the
  filesystem.

  A call either returns or raises an exception that \<^verbatim>\<open>except Exception\<close> catches; an
  await that never completes and the cancellation of the task are outside the model.
  Paths are opaque strings joined as \<^verbatim>\<open>posixpath\<close> joins them.
\<close>

subsection \<open>Data\<close>

text \<open>The keyword arguments of \<^verbatim>\<open>page.pdf\<close>; the lengths are the strings of the source.\<close>

record margins =
  top :: string
  right :: string
  bottom :: string
  left :: string

record pdf_options =
  path :: string
  width :: string
  height :: string
  print_background :: bool
  landscape :: bool
  margin :: margins
  prefer_css_page_size :: bool
  display_header_footer :: bool
  scale :: nat

text \<open>The awaited or blocking calls that leave the program, with their arguments.\<close>

datatype call =
    PlaywrightStart
  | ChromiumLaunch bool "string list"
  | NewPage
  | SetViewportSize nat nat
  | Goto string string nat
  | Sleep nat
  | EvaluateImagesLoaded
  | EvaluateFontsReady
  | PagePdf pdf_options
  | PageClose
  | BrowserClose
  | PlaywrightStop
  | Makedirs string
  | MergerAppend string
  | OpenWb string
  | MergerWrite string
  | MergerClose

datatype exn =
    RuntimeError
  | ImportError
  | PdfReadError string
  | CallFailed call

text \<open>
  A captured page remembers the URL it was rendered from and the physical size it was
  captured at. A regular file is an HTML document, a page document, or what an
  interrupted write leaves behind.
\<close>

datatype page = Page string string string

datatype content = Html | Pdf "page list" | Truncated

datatype log_record =
    Info_LaunchingChromium
  | Info_LoadingHtml string
  | Info_PdfGenerated string
  | Error_HtmlMissing string
  | Error_ConvertFailed exn
  | Warning_PageReady exn
  | Error_JobFailed string
  | Error_BatchFailed exn
  | Info_MergeDone string
  | Warning_NoPyPDF2
  | Error_MergeFailed exn

record env =
  PLAYWRIGHT_AVAILABLE :: bool
  PyPDF2_importable :: bool
  abspath :: "string \<Rightarrow> string"
  succeeds :: "nat \<Rightarrow> call \<Rightarrow> bool"

text \<open>
  \<open>playwright\<close> and \<open>browser\<close> are the fields of the converter object; a handle is the
  position in the trace of the call that created it. \<open>files\<close> holds the regular files
  (directories are not modelled: \<^verbatim>\<open>os.makedirs\<close> is a call that succeeds or raises),
  \<open>live_browsers\<close> the browser processes that run, \<open>open_pages\<close> the number of page
  contexts that are open.
\<close>

record state =
  playwright :: "nat option"
  browser :: "nat option"
  files :: "string \<rightharpoonup> content"
  live_browsers :: "nat set"
  open_pages :: nat
  trace :: "call list"
  logged :: "log_record list"

text \<open>\<^verbatim>\<open>HTMLToPDFConverter.__init__\<close>, on a filesystem \<open>fs\<close>.\<close>

definition init :: "(string \<rightharpoonup> content) \<Rightarrow> state" where
  "init fs = \<lparr>playwright = None, browser = None, files = fs, live_browsers = {},
              open_pages = 0, trace = [], logged = []\<rparr>"

subsection \<open>Control: sequencing, try/except, try/finally\<close>

type_synonym 'a io = "state \<Rightarrow> (exn + 'a) \<times> state"

definition io_return :: "'a \<Rightarrow> 'a io" where
  "io_return x s = (Inr x, s)"

definition io_raise :: "exn \<Rightarrow> 'a io" where
  "io_raise x s = (Inl x, s)"

definition io_bind :: "'a io \<Rightarrow> ('a \<Rightarrow> 'b io) \<Rightarrow> 'b io" where
  "io_bind m f s = (case m s of (Inl x, s') \<Rightarrow> (Inl x, s') | (Inr a, s') \<Rightarrow> f a s')"

definition io_seq :: "'a io \<Rightarrow> 'b io \<Rightarrow> 'b io" where
  "io_seq m k = io_bind m (\<lambda>_. k)"

text \<open>\<^verbatim>\<open>try: m  except Exception as x: h x\<close>\<close>

definition io_try :: "'a io \<Rightarrow> (exn \<Rightarrow> 'a io) \<Rightarrow> 'a io" where
  "io_try m h s = (case m s of (Inl x, s') \<Rightarrow> h x s' | (Inr a, s') \<Rightarrow> (Inr a, s'))"

text \<open>
  \<^verbatim>\<open>try: m  finally: c\<close>. The clean-up runs on every outcome of \<open>m\<close>; when it raises,
  its exception replaces the outcome of \<open>m\<close>.
\<close>

definition io_finally :: "'a io \<Rightarrow> unit io \<Rightarrow> 'a io" where
  "io_finally m c s =
     (case m s of (r, s') \<Rightarrow>
        (case c s' of (Inl x, s'') \<Rightarrow> (Inl x, s'') | (Inr _, s'') \<Rightarrow> (r, s'')))"

text \<open>A call to the outside world: it is appended to the trace, the environment decides.\<close>

definition ext :: "env \<Rightarrow> call \<Rightarrow> unit io" where
  "ext e c s =
     (if succeeds e (length (trace s)) c then Inr () else Inl (CallFailed c),
      s\<lparr>trace := trace s @ [c]\<rparr>)"

definition modify :: "(state \<Rightarrow> state) \<Rightarrow> unit io" where
  "modify f s = (Inr (), f s)"

text \<open>\<^verbatim>\<open>await asyncio.sleep(seconds)\<close> is recorded in the trace and cannot fail.\<close>

definition asyncio_sleep :: "nat \<Rightarrow> unit io" where
  "asyncio_sleep seconds = modify (\<lambda>s. s\<lparr>trace := trace s @ [Sleep seconds]\<rparr>)"

definition logger :: "log_record \<Rightarrow> unit io" where
  "logger r = modify (\<lambda>s. s\<lparr>logged := logged s @ [r]\<rparr>)"

definition os_path_exists :: "state \<Rightarrow> string \<Rightarrow> bool" where
  "os_path_exists s p = (files s p \<noteq> None)"

subsection \<open>The browser session\<close>

definition is_available :: "env \<Rightarrow> bool" where
  "is_available e = PLAYWRIGHT_AVAILABLE e"

definition launch_args :: "string list" where
  "launch_args =
     [''--no-sandbox'', ''--disable-setuid-sandbox'', ''--disable-dev-shm-usage'',
      ''--disable-gpu'', ''--disable-web-security'', ''--allow-running-insecure-content'',
      ''--disable-features=VizDisplayCompositor'']"

text \<open>
  \<^verbatim>\<open>self.playwright = await async_playwright().start()\<close>, then
  \<^verbatim>\<open>self.browser = await self.playwright.chromium.launch(...)\<close>: each field is assigned
  only when its call returns, and a launched browser is a new live process.
\<close>

definition playwright_start :: "env \<Rightarrow> unit io" where
  "playwright_start e s =
     io_seq (ext e PlaywrightStart)
       (modify (\<lambda>t. t\<lparr>playwright := Some (length (trace s))\<rparr>)) s"

definition chromium_launch :: "env \<Rightarrow> unit io" where
  "chromium_launch e s =
     io_seq (ext e (ChromiumLaunch True launch_args))
       (modify (\<lambda>t. t\<lparr>browser := Some (length (trace s)),
                       live_browsers := insert (length (trace s)) (live_browsers t)\<rparr>)) s"

definition start_browser :: "env \<Rightarrow> unit io" where
  "start_browser e s =
     (if \<not> is_available e then io_raise RuntimeError s
      else if browser s = None then
        io_seq (logger Info_LaunchingChromium)
          (io_seq (playwright_start e) (chromium_launch e)) s
      else io_return () s)"

text \<open>
  \<^verbatim>\<open>browser.close()\<close> ends the process and with it every page context; when the call
  raises, the assignment \<^verbatim>\<open>self.browser = None\<close> is not reached and the process is taken
  to be still there.
\<close>

definition browser_close :: "env \<Rightarrow> nat \<Rightarrow> unit io" where
  "browser_close e b =
     io_seq (ext e BrowserClose)
       (modify (\<lambda>t. t\<lparr>browser := None, live_browsers := live_browsers t - {b},
                       open_pages := 0\<rparr>))"

definition playwright_stop :: "env \<Rightarrow> unit io" where
  "playwright_stop e =
     io_seq (ext e PlaywrightStop) (modify (\<lambda>t. t\<lparr>playwright := None\<rparr>))"

definition close_browser :: "env \<Rightarrow> unit io" where
  "close_browser e =
     io_seq (\<lambda>s. case browser s of Some b \<Rightarrow> browser_close e b s | None \<Rightarrow> io_return () s)
            (\<lambda>s. case playwright s of Some _ \<Rightarrow> playwright_stop e s | None \<Rightarrow> io_return () s)"

subsection \<open>Rendering one document\<close>

definition new_page :: "env \<Rightarrow> unit io" where
  "new_page e = io_seq (ext e NewPage) (modify (\<lambda>t. t\<lparr>open_pages := Suc (open_pages t)\<rparr>))"

definition page_close :: "env \<Rightarrow> unit io" where
  "page_close e = io_seq (ext e PageClose) (modify (\<lambda>t. t\<lparr>open_pages := open_pages t - 1\<rparr>))"

text \<open>
  \<^verbatim>\<open>page.pdf(path=..., ...)\<close> of the page showing \<open>url\<close>: when the call returns, the file
  at \<open>path\<close> is a page document of one page of the size asked for; when it raises, the
  filesystem is as before.
\<close>

definition page_pdf :: "env \<Rightarrow> string \<Rightarrow> pdf_options \<Rightarrow> unit io" where
  "page_pdf e url opts =
     io_seq (ext e (PagePdf opts))
       (modify (\<lambda>t. t\<lparr>files := (files t)(path opts \<mapsto> Pdf [Page url (width opts) (height opts)])\<rparr>))"

text \<open>The options of the source, lines 104 to 119.\<close>

definition pdf_kwargs :: "string \<Rightarrow> pdf_options" where
  "pdf_kwargs pdf_output_path =
     \<lparr>path = pdf_output_path, width = ''338.67mm'', height = ''190.5mm'',
      print_background = True, landscape = False,
      margin = \<lparr>top = ''0mm'', right = ''0mm'', bottom = ''0mm'', left = ''0mm''\<rparr>,
      prefer_css_page_size = False, display_header_footer = False, scale = 1\<rparr>"

definition wait_for_page_ready :: "env \<Rightarrow> unit io" where
  "wait_for_page_ready e =
     io_try
       (io_seq (ext e EvaluateImagesLoaded)
         (io_seq (ext e EvaluateFontsReady)
           (asyncio_sleep 1)))
       (\<lambda>x. logger (Warning_PageReady x))"

definition file_url :: "env \<Rightarrow> string \<Rightarrow> string" where
  "file_url e html_file_path = ''file://'' @ abspath e html_file_path"

definition convert_html_to_pdf :: "env \<Rightarrow> string \<Rightarrow> string \<Rightarrow> bool io" where
  "convert_html_to_pdf e html_file_path pdf_output_path s =
     (if \<not> os_path_exists s html_file_path then
        io_seq (logger (Error_HtmlMissing html_file_path)) (io_return False) s
      else
        io_try
          (io_seq (start_browser e)
          (io_seq (new_page e)
          (io_seq (ext e (SetViewportSize 1280 720))
          (io_seq (logger (Info_LoadingHtml (file_url e html_file_path)))
          (io_seq (ext e (Goto (file_url e html_file_path) ''networkidle'' 30000))
          (io_seq (asyncio_sleep 2)
          (io_seq (wait_for_page_ready e)
          (io_seq (page_pdf e (file_url e html_file_path) (pdf_kwargs pdf_output_path))
          (io_seq (page_close e)
          (io_seq (logger (Info_PdfGenerated pdf_output_path))
                  (io_return True)))))))))))
          (\<lambda>x. io_seq (logger (Error_ConvertFailed x)) (io_return False)) s)"

subsection \<open>Merging\<close>

text \<open>
  \<^verbatim>\<open>merger.append(pdf_file)\<close> reads the whole document when it is called and raises
  on a file that is not a page document.
\<close>

definition merger_append :: "env \<Rightarrow> string \<Rightarrow> page list \<Rightarrow> (page list) io" where
  "merger_append e pdf_file merger s =
     io_seq (ext e (MergerAppend pdf_file))
       (case files s pdf_file of
          Some (Pdf pages) \<Rightarrow> io_return (merger @ pages)
        | _ \<Rightarrow> io_raise (PdfReadError pdf_file)) s"

fun append_existing :: "env \<Rightarrow> string list \<Rightarrow> page list \<Rightarrow> (page list) io" where
  "append_existing e [] merger s = io_return merger s"
| "append_existing e (pdf_file # rest) merger s =
     (if os_path_exists s pdf_file then
        io_bind (merger_append e pdf_file merger) (\<lambda>m. append_existing e rest m) s
      else append_existing e rest merger s)"

text \<open>
  \<^verbatim>\<open>with open(output_path, 'wb') as output_file: merger.write(output_file)\<close>: opening
  for writing empties the file at once; the pages are there only when the write returns.
\<close>

definition write_output :: "env \<Rightarrow> string \<Rightarrow> page list \<Rightarrow> unit io" where
  "write_output e output_path merger =
     io_seq (ext e (OpenWb output_path))
    (io_seq (modify (\<lambda>t. t\<lparr>files := (files t)(output_path \<mapsto> Truncated)\<rparr>))
    (io_seq (ext e (MergerWrite output_path))
            (modify (\<lambda>t. t\<lparr>files := (files t)(output_path \<mapsto> Pdf merger)\<rparr>))))"

definition import_PdfMerger :: "env \<Rightarrow> unit io" where
  "import_PdfMerger e = (if PyPDF2_importable e then io_return () else io_raise ImportError)"

text \<open>
  \<^verbatim>\<open>merger.close()\<close> follows the write inside the \<^verbatim>\<open>try\<close>: when it raises, a merge
  failure is logged although the output is written in full.
\<close>

definition merge_pdfs :: "env \<Rightarrow> string list \<Rightarrow> string \<Rightarrow> unit io" where
  "merge_pdfs e pdf_files output_path =
     io_try
       (io_seq (import_PdfMerger e)
         (io_bind (append_existing e pdf_files [])
           (\<lambda>merger. io_seq (write_output e output_path merger)
                     (io_seq (ext e MergerClose)
                             (logger (Info_MergeDone output_path))))))
       (\<lambda>x. if x = ImportError then logger Warning_NoPyPDF2
            else logger (Error_MergeFailed x))"

subsection \<open>The batch\<close>

text \<open>\<^verbatim>\<open>str(n)\<close> for a natural number and \<^verbatim>\<open>os.path.join\<close> of \<^verbatim>\<open>posixpath\<close>.\<close>

definition digit :: "nat \<Rightarrow> char" where
  "digit d = char_of (48 + d)"

fun str :: "nat \<Rightarrow> string" where
  "str n = (if n < 10 then [digit n] else str (n div 10) @ [digit (n mod 10)])"

declare str.simps [simp del]

definition os_path_join :: "string \<Rightarrow> string \<Rightarrow> string" where
  "os_path_join a b =
     (if b \<noteq> [] \<and> hd b = CHR ''/'' then b
      else if a = [] \<or> last a = CHR ''/'' then a @ b
      else a @ ''/'' @ b)"

text \<open>The path of the page file of the job at position \<open>i\<close> of \<^verbatim>\<open>enumerate(html_files)\<close>.\<close>

definition slide_pdf_path :: "string \<Rightarrow> nat \<Rightarrow> string" where
  "slide_pdf_path output_dir i = os_path_join output_dir (''slide_'' @ str (i + 1) @ ''.pdf'')"

fun convert_each :: "env \<Rightarrow> string \<Rightarrow> nat \<Rightarrow> string list \<Rightarrow> string list \<Rightarrow> (string list) io" where
  "convert_each e output_dir i [] pdf_files s = io_return pdf_files s"
| "convert_each e output_dir i (html_file # rest) pdf_files s =
     io_bind (convert_html_to_pdf e html_file (slide_pdf_path output_dir i))
       (\<lambda>success.
          if success then
            convert_each e output_dir (Suc i) rest (pdf_files @ [slide_pdf_path output_dir i])
          else
            io_seq (logger (Error_JobFailed html_file))
                   (convert_each e output_dir (Suc i) rest pdf_files)) s"

text \<open>
  \<^verbatim>\<open>if merged_pdf_path and pdf_files\<close>: \<^verbatim>\<open>None\<close> and the empty string are both false.
\<close>

definition convert_multiple_html_to_pdf ::
  "env \<Rightarrow> string list \<Rightarrow> string \<Rightarrow> string option \<Rightarrow> (string list) io" where
  "convert_multiple_html_to_pdf e html_files output_dir merged_pdf_path =
     io_seq (ext e (Makedirs output_dir))
       (io_finally
          (io_try
             (io_seq (start_browser e)
               (io_bind (convert_each e output_dir 0 html_files [])
                 (\<lambda>pdf_files.
                    case merged_pdf_path of
                      Some m \<Rightarrow>
                        if m \<noteq> [] \<and> pdf_files \<noteq> [] then
                          io_seq (merge_pdfs e pdf_files m) (io_return [m])
                        else io_return pdf_files
                    | None \<Rightarrow> io_return pdf_files)))
             (\<lambda>x. io_seq (logger (Error_BatchFailed x)) (io_return [])))
          (close_browser e))"

subsection \<open>Vocabulary of the properties\<close>

text \<open>The calls made between two states of one run.\<close>

definition calls_since :: "state \<Rightarrow> state \<Rightarrow> call list" where
  "calls_since s s' = drop (length (trace s)) (trace s')"

fun is_SetViewportSize :: "call \<Rightarrow> bool" where
  "is_SetViewportSize (SetViewportSize w h) = True"
| "is_SetViewportSize c = False"

fun is_PagePdf :: "call \<Rightarrow> bool" where
  "is_PagePdf (PagePdf opts) = True"
| "is_PagePdf c = False"

fun is_MergerWrite :: "call \<Rightarrow> bool" where
  "is_MergerWrite (MergerWrite p) = True"
| "is_MergerWrite c = False"

fun is_ChromiumLaunch :: "call \<Rightarrow> bool" where
  "is_ChromiumLaunch (ChromiumLaunch headless args) = True"
| "is_ChromiumLaunch c = False"

fun is_Makedirs :: "call \<Rightarrow> bool" where
  "is_Makedirs (Makedirs d) = True"
| "is_Makedirs c = False"

text \<open>
  The calls \<^verbatim>\<open>start_browser\<close> makes when every one of them succeeds, those of the
  readiness wait whose first call is the one numbered \<open>n\<close>, and those of
  \<^verbatim>\<open>close_browser\<close> run in state \<open>t\<close>.
\<close>

definition start_calls :: "state \<Rightarrow> call list" where
  "start_calls s =
     (if browser s = None then [PlaywrightStart, ChromiumLaunch True launch_args] else [])"

definition wait_calls :: "env \<Rightarrow> nat \<Rightarrow> call list" where
  "wait_calls e n =
     (if \<not> succeeds e n EvaluateImagesLoaded then [EvaluateImagesLoaded]
      else if \<not> succeeds e (Suc n) EvaluateFontsReady then
        [EvaluateImagesLoaded, EvaluateFontsReady]
      else [EvaluateImagesLoaded, EvaluateFontsReady, Sleep 1])"

definition teardown_calls :: "env \<Rightarrow> state \<Rightarrow> call list" where
  "teardown_calls e t =
     (if browser t = None then [] else [BrowserClose])
     @ (if (browser t = None \<or> succeeds e (length (trace t)) BrowserClose)
           \<and> playwright t \<noteq> None then [PlaywrightStop] else [])"

text \<open>
  The browser processes that are alive are exactly the one the converter holds a handle
  to, if any: at most one session per converter.
\<close>

definition session_inv :: "state \<Rightarrow> bool" where
  "session_inv s = (live_browsers s = set_option (browser s))"

text \<open>
  What \<^verbatim>\<open>convert_html_to_pdf\<close> returns for each job of the loop, in job order, when the
  loop starts in state \<open>s\<close> with index \<open>i\<close>; the state is threaded as the loop does.
\<close>

fun job_results :: "env \<Rightarrow> string \<Rightarrow> nat \<Rightarrow> string list \<Rightarrow> state \<Rightarrow> bool list" where
  "job_results e output_dir i [] s = []"
| "job_results e output_dir i (html_file # rest) s =
     (case convert_html_to_pdf e html_file (slide_pdf_path output_dir i) s of
        (Inr True, s') \<Rightarrow> True # job_results e output_dir (Suc i) rest s'
      | (_, s') \<Rightarrow>
          False # job_results e output_dir (Suc i) rest (snd (logger (Error_JobFailed html_file) s')))"

text \<open>The elements of \<open>xs\<close> at the positions where \<open>bs\<close> is true, in order.\<close>

definition successful :: "'a list \<Rightarrow> bool list \<Rightarrow> 'a list" where
  "successful xs bs = map fst (filter snd (zip xs bs))"

text \<open>The state in which the loop of the batch starts: the directory made, the session started.\<close>

definition batch_start :: "env \<Rightarrow> string \<Rightarrow> state \<Rightarrow> (exn + unit) \<times> state" where
  "batch_start e output_dir = io_seq (ext e (Makedirs output_dir)) (start_browser e)"

text \<open>The guarded block of the batch, lines 190 to 212: the \<^verbatim>\<open>try\<close> with its \<^verbatim>\<open>except\<close>.\<close>

definition batch_try ::
  "env \<Rightarrow> string list \<Rightarrow> string \<Rightarrow> string option \<Rightarrow> (string list) io" where
  "batch_try e html_files output_dir merged_pdf_path =
     io_try
       (io_seq (start_browser e)
         (io_bind (convert_each e output_dir 0 html_files [])
           (\<lambda>pdf_files.
              case merged_pdf_path of
                Some m \<Rightarrow>
                  if m \<noteq> [] \<and> pdf_files \<noteq> [] then
                    io_seq (merge_pdfs e pdf_files m) (io_return [m])
                  else io_return pdf_files
              | None \<Rightarrow> io_return pdf_files)))
       (\<lambda>x. io_seq (logger (Error_BatchFailed x)) (io_return []))"

text \<open>A relation between the state before and after holds for every run of a program.\<close>

definition frame :: "(state \<Rightarrow> state \<Rightarrow> bool) \<Rightarrow> 'a io \<Rightarrow> bool" where
  "frame R m = (\<forall>s. R s (snd (m s)))"

definition keeps_inv :: "state \<Rightarrow> state \<Rightarrow> bool" where
  "keeps_inv s s' = (session_inv s \<longrightarrow> session_inv s')"

definition keeps_handles :: "state \<Rightarrow> state \<Rightarrow> bool" where
  "keeps_handles s s' =
     (browser s \<noteq> None \<longrightarrow> browser s' = browser s \<and> playwright s' = playwright s)"

definition same_files_except :: "string set \<Rightarrow> state \<Rightarrow> state \<Rightarrow> bool" where
  "same_files_except Q s s' = (\<forall>q. q \<notin> Q \<longrightarrow> files s' q = files s q)"

text \<open>The pages of the page document at a path; nothing for any other file or for none.\<close>

definition pages_of :: "state \<Rightarrow> string \<Rightarrow> page list" where
  "pages_of s p = (case files s p of Some (Pdf pages) \<Rightarrow> pages | _ \<Rightarrow> [])"

subsection \<open>Concrete environments and filesystems\<close>

text \<open>Everything installed, every call succeeds, paths are absolute already.\<close>

definition env_ok :: env where
  "env_ok = \<lparr>PLAYWRIGHT_AVAILABLE = True, PyPDF2_importable = True,
             abspath = (\<lambda>p. p), succeeds = (\<lambda>n c. True)\<rparr>"

definition env_capture_fails :: env where
  "env_capture_fails = env_ok\<lparr>succeeds := (\<lambda>n c. \<not> is_PagePdf c)\<rparr>"

definition env_fonts_fail :: env where
  "env_fonts_fail = env_ok\<lparr>succeeds := (\<lambda>n c. c \<noteq> EvaluateFontsReady)\<rparr>"

definition env_write_fails :: env where
  "env_write_fails = env_ok\<lparr>succeeds := (\<lambda>n c. \<not> is_MergerWrite c)\<rparr>"

definition env_no_playwright :: env where
  "env_no_playwright = env_ok\<lparr>PLAYWRIGHT_AVAILABLE := False\<rparr>"

definition env_no_pypdf2 :: env where
  "env_no_pypdf2 = env_ok\<lparr>PyPDF2_importable := False\<rparr>"

definition env_launch_and_stop_fail :: env where
  "env_launch_and_stop_fail =
     env_ok\<lparr>succeeds := (\<lambda>n c. \<not> is_ChromiumLaunch c \<and> c \<noteq> PlaywrightStop)\<rparr>"

definition env_browser_close_fails :: env where
  "env_browser_close_fails = env_ok\<lparr>succeeds := (\<lambda>n c. c \<noteq> BrowserClose)\<rparr>"

definition env_makedirs_fails :: env where
  "env_makedirs_fails = env_ok\<lparr>succeeds := (\<lambda>n c. \<not> is_Makedirs c)\<rparr>"

text \<open>A slides directory in which \<^verbatim>\<open>slide_2.html\<close> is missing.\<close>

definition slides_1_3 :: "string \<rightharpoonup> content" where
  "slides_1_3 = [''/slides/slide_1.html'' \<mapsto> Html, ''/slides/slide_3.html'' \<mapsto> Html]"

text \<open>One rendered page and an older merged document at the output path.\<close>

definition page_and_old_artifact :: "string \<rightharpoonup> content" where
  "page_and_old_artifact =
     [''/out/slide_1.pdf'' \<mapsto> Pdf [Page ''file:///slides/slide_1.html'' ''338.67mm'' ''190.5mm''],
      ''/out/presentation.pdf'' \<mapsto> Pdf [Page ''file:///old.html'' ''338.67mm'' ''190.5mm'']]"

text \<open>A converter that has rendered one document on its own: its browser is still running.\<close>

definition after_single_render :: state where
  "after_single_render =
     snd (convert_html_to_pdf env_makedirs_fails ''/slides/slide_1.html'' ''/out/slide_1.pdf''
            (init slides_1_3))"

section \<open>Lemmas\<close>

lemmas io_defs = io_return_def io_raise_def io_bind_def io_seq_def io_try_def io_finally_def
  modify_def logger_def ext_def asyncio_sleep_def

lemmas render_defs = convert_html_to_pdf_def start_browser_def playwright_start_def
  chromium_launch_def new_page_def page_pdf_def page_close_def wait_for_page_ready_def
  is_available_def

lemmas env_defs = env_ok_def env_capture_fails_def env_fonts_fail_def env_write_fails_def
  env_no_playwright_def env_no_pypdf2_def env_launch_and_stop_fail_def
  env_browser_close_fails_def env_makedirs_fails_def

subsection \<open>Rules for relations between the state before and after\<close>

lemma frameD: "frame R m \<Longrightarrow> m s = (r, s') \<Longrightarrow> R s s'"
  by (auto simp: frame_def dest: spec[of _ s])

lemma frame_return: "reflp R \<Longrightarrow> frame R (io_return x)"
  by (simp add: frame_def io_return_def reflpD)

lemma frame_raise: "reflp R \<Longrightarrow> frame R (io_raise x)"
  by (simp add: frame_def io_raise_def reflpD)

lemma frame_modify: "(\<And>s. R s (f s)) \<Longrightarrow> frame R (modify f)"
  by (simp add: frame_def modify_def)

lemma frame_logger: "(\<And>s. R s (s\<lparr>logged := logged s @ [r]\<rparr>)) \<Longrightarrow> frame R (logger r)"
  by (simp add: logger_def frame_modify)

lemma frame_ext: "(\<And>s. R s (s\<lparr>trace := trace s @ [c]\<rparr>)) \<Longrightarrow> frame R (ext e c)"
  by (simp add: frame_def ext_def)

lemma frame_bind:
  assumes "transp R" "frame R m" "\<And>a. frame R (f a)"
  shows "frame R (io_bind m f)"
  unfolding frame_def
proof
  fix s
  obtain r s1 where m: "m s = (r, s1)" by (cases "m s")
  have 1: "R s s1" using assms(2) m by (rule frameD)
  show "R s (snd (io_bind m f s))"
  proof (cases r)
    case (Inl x)
    then show ?thesis using m 1 by (simp add: io_bind_def)
  next
    case (Inr a)
    have "R s1 (snd (f a s1))" using assms(3) by (simp add: frame_def)
    with 1 have "R s (snd (f a s1))" using assms(1) by (blast dest: transpD)
    then show ?thesis using m Inr by (simp add: io_bind_def)
  qed
qed

lemma frame_seq: "transp R \<Longrightarrow> frame R m \<Longrightarrow> frame R k \<Longrightarrow> frame R (io_seq m k)"
  by (simp add: io_seq_def frame_bind)

lemma frame_try:
  assumes "transp R" "frame R m" "\<And>x. frame R (h x)"
  shows "frame R (io_try m h)"
  unfolding frame_def
proof
  fix s
  obtain r s1 where m: "m s = (r, s1)" by (cases "m s")
  have 1: "R s s1" using assms(2) m by (rule frameD)
  show "R s (snd (io_try m h s))"
  proof (cases r)
    case (Inr a)
    then show ?thesis using m 1 by (simp add: io_try_def)
  next
    case (Inl x)
    have "R s1 (snd (h x s1))" using assms(3) by (simp add: frame_def)
    with 1 have "R s (snd (h x s1))" using assms(1) by (blast dest: transpD)
    then show ?thesis using m Inl by (simp add: io_try_def)
  qed
qed

lemma frame_finally:
  assumes "transp R" "frame R m" "frame R c"
  shows "frame R (io_finally m c)"
  unfolding frame_def
proof
  fix s
  obtain r s1 where m: "m s = (r, s1)" by (cases "m s")
  obtain q s2 where c: "c s1 = (q, s2)" by (cases "c s1")
  have "R s s1" using assms(2) m by (rule frameD)
  moreover have "R s1 s2" using assms(3) c by (rule frameD)
  ultimately have "R s s2" using assms(1) by (blast dest: transpD)
  then show "R s (snd (io_finally m c s))"
    using m c by (cases q) (simp_all add: io_finally_def)
qed

lemma frame_cond: "frame R m \<Longrightarrow> frame R k \<Longrightarrow> frame R (\<lambda>s. if P s then m s else k s)"
  by (simp add: frame_def)

lemmas frame_intros = frame_return frame_raise frame_modify frame_logger frame_ext frame_bind
  frame_seq frame_try frame_finally

lemma keeps_inv_pre: "reflp keeps_inv" "transp keeps_inv"
  by (auto simp: keeps_inv_def reflp_def transp_def)

lemma same_files_pre: "reflp (same_files_except Q)" "transp (same_files_except Q)"
  by (auto simp: same_files_except_def reflp_def transp_def)

lemma same_files_mono: "Q \<subseteq> Q' \<Longrightarrow> frame (same_files_except Q) m \<Longrightarrow> frame (same_files_except Q') m"
  by (auto simp: frame_def same_files_except_def)

subsection \<open>The session invariant\<close>

lemma start_browser_inv: "frame keeps_inv (start_browser e)"
  unfolding start_browser_def[abs_def] playwright_start_def[abs_def] chromium_launch_def[abs_def]
  by (auto simp: frame_def keeps_inv_def session_inv_def io_defs
           split: prod.splits sum.splits if_splits)

lemma close_browser_inv: "frame keeps_inv (close_browser e)"
  unfolding close_browser_def browser_close_def playwright_stop_def
  by (auto simp: frame_def keeps_inv_def session_inv_def io_defs
           split: prod.splits sum.splits if_splits option.splits)

lemma wait_inv: "frame keeps_inv (wait_for_page_ready e)"
  unfolding wait_for_page_ready_def asyncio_sleep_def
  by (intro frame_intros keeps_inv_pre) (simp_all add: keeps_inv_def session_inv_def)

lemma convert_inv: "frame keeps_inv (convert_html_to_pdf e h p)"
  unfolding convert_html_to_pdf_def[abs_def] new_page_def page_pdf_def page_close_def
    asyncio_sleep_def
  by (intro frame_cond frame_intros keeps_inv_pre start_browser_inv wait_inv)
     (simp_all add: keeps_inv_def session_inv_def)

subsection \<open>Rendering one document\<close>

lemma io_try_returns:
  assumes "\<And>x t. fst (h x t) \<noteq> Inl y"
  shows "fst (io_try m h s) \<noteq> Inl y"
proof (cases "m s")
  case (Pair r s1)
  then show ?thesis using assms[of _ s1] by (cases r) (simp_all add: io_try_def)
qed

lemma convert_never_raises: "fst (convert_html_to_pdf e h p s) \<noteq> Inl y"
proof (cases "os_path_exists s h")
  case False
  then show ?thesis by (simp add: convert_html_to_pdf_def io_defs)
next
  case True
  have "\<And>x t. fst ((io_seq (logger (Error_ConvertFailed x)) (io_return False)) t) \<noteq> Inl y"
    by (simp add: io_defs)
  from io_try_returns[of "\<lambda>x. io_seq (logger (Error_ConvertFailed x)) (io_return False)", OF this]
  show ?thesis using True by (simp add: convert_html_to_pdf_def)
qed

lemma start_browser_files: "frame (same_files_except Q) (start_browser e)"
  unfolding start_browser_def[abs_def] playwright_start_def[abs_def] chromium_launch_def[abs_def]
  by (auto simp: frame_def same_files_except_def io_defs split: prod.splits sum.splits if_splits)

lemma wait_files: "frame (same_files_except Q) (wait_for_page_ready e)"
  unfolding wait_for_page_ready_def asyncio_sleep_def
  by (intro frame_intros same_files_pre) (simp_all add: same_files_except_def)

lemma convert_files: "frame (same_files_except {p}) (convert_html_to_pdf e h p)"
  unfolding convert_html_to_pdf_def[abs_def] new_page_def page_pdf_def page_close_def
    asyncio_sleep_def
  by (intro frame_cond frame_intros same_files_pre start_browser_files wait_files)
     (simp_all add: same_files_except_def pdf_kwargs_def)

lemma convert_True_run:
  assumes "convert_html_to_pdf e h p s = (Inr True, s')"
  shows "filter is_SetViewportSize (calls_since s s') = [SetViewportSize 1280 720]"
    and "filter is_PagePdf (calls_since s s') = [PagePdf (pdf_kwargs p)]"
    and "files s' p = Some (Pdf [Page (file_url e h) ''338.67mm'' ''190.5mm''])"
  using assms
  by (auto simp: render_defs io_defs calls_since_def pdf_kwargs_def
           split: if_splits prod.splits sum.splits)

lemma io_seq_Inr:
  assumes "io_seq m k s = (Inr v, s')"
  obtains u s1 where "m s = (Inr u, s1)" "k s1 = (Inr v, s')"
  using assms by (auto simp: io_seq_def io_bind_def split: prod.splits sum.splits)

lemma start_browser_trace:
  "start_browser e s = (Inr u, s1) \<Longrightarrow> trace s1 = trace s @ start_calls s"
  by (auto simp: start_browser_def playwright_start_def chromium_launch_def io_defs
        start_calls_def split: if_splits)

lemma wait_trace:
  "trace (snd (wait_for_page_ready e s)) = trace s @ wait_calls e (length (trace s))"
  by (simp add: wait_for_page_ready_def io_defs wait_calls_def)

lemma ext_trace: "ext e c s = (r, s1) \<Longrightarrow> trace s1 = trace s @ [c]"
  by (auto simp: ext_def)

lemma convert_True_calls:
  assumes "convert_html_to_pdf e h p s = (Inr True, s')"
  shows "calls_since s s'
         = start_calls s
           @ [NewPage, SetViewportSize 1280 720, Goto (file_url e h) ''networkidle'' 30000, Sleep 2]
           @ wait_calls e (length (trace s) + length (start_calls s) + 4)
           @ [PagePdf (pdf_kwargs p), PageClose]"
proof -
  let ?body = "io_seq (start_browser e)
          (io_seq (new_page e)
          (io_seq (ext e (SetViewportSize 1280 720))
          (io_seq (logger (Info_LoadingHtml (file_url e h)))
          (io_seq (ext e (Goto (file_url e h) ''networkidle'' 30000))
          (io_seq (asyncio_sleep 2)
          (io_seq (wait_for_page_ready e)
          (io_seq (page_pdf e (file_url e h) (pdf_kwargs p))
          (io_seq (page_close e)
          (io_seq (logger (Info_PdfGenerated p))
                  (io_return True))))))))))"
  have ex: "os_path_exists s h"
    using assms by (auto simp: convert_html_to_pdf_def io_defs split: if_splits)
  have "io_try ?body (\<lambda>x. io_seq (logger (Error_ConvertFailed x)) (io_return False)) s
        = (Inr True, s')"
    using assms ex by (simp add: convert_html_to_pdf_def)
  then have body: "?body s = (Inr True, s')"
    by (cases "?body s") (auto simp: io_try_def io_seq_def io_bind_def io_return_def logger_def
          modify_def split: sum.splits)
  from body obtain u1 s1 where 1: "start_browser e s = (Inr u1, s1)"
    and r1: "io_seq (new_page e)
          (io_seq (ext e (SetViewportSize 1280 720))
          (io_seq (logger (Info_LoadingHtml (file_url e h)))
          (io_seq (ext e (Goto (file_url e h) ''networkidle'' 30000))
          (io_seq (asyncio_sleep 2)
          (io_seq (wait_for_page_ready e)
          (io_seq (page_pdf e (file_url e h) (pdf_kwargs p))
          (io_seq (page_close e)
          (io_seq (logger (Info_PdfGenerated p))
                  (io_return True))))))))) s1 = (Inr True, s')"
    by (rule io_seq_Inr)
  from r1 obtain u2 s2 where 2: "new_page e s1 = (Inr u2, s2)"
    and r2: "io_seq (ext e (SetViewportSize 1280 720))
          (io_seq (logger (Info_LoadingHtml (file_url e h)))
          (io_seq (ext e (Goto (file_url e h) ''networkidle'' 30000))
          (io_seq (asyncio_sleep 2)
          (io_seq (wait_for_page_ready e)
          (io_seq (page_pdf e (file_url e h) (pdf_kwargs p))
          (io_seq (page_close e)
          (io_seq (logger (Info_PdfGenerated p))
                  (io_return True)))))))) s2 = (Inr True, s')"
    by (rule io_seq_Inr)
  from r2 obtain u3 s3 where 3: "ext e (SetViewportSize 1280 720) s2 = (Inr u3, s3)"
    and r3: "io_seq (logger (Info_LoadingHtml (file_url e h)))
          (io_seq (ext e (Goto (file_url e h) ''networkidle'' 30000))
          (io_seq (asyncio_sleep 2)
          (io_seq (wait_for_page_ready e)
          (io_seq (page_pdf e (file_url e h) (pdf_kwargs p))
          (io_seq (page_close e)
          (io_seq (logger (Info_PdfGenerated p))
                  (io_return True))))))) s3 = (Inr True, s')"
    by (rule io_seq_Inr)
  from r3 obtain u4 s4 where 4: "logger (Info_LoadingHtml (file_url e h)) s3 = (Inr u4, s4)"
    and r4: "io_seq (ext e (Goto (file_url e h) ''networkidle'' 30000))
          (io_seq (asyncio_sleep 2)
          (io_seq (wait_for_page_ready e)
          (io_seq (page_pdf e (file_url e h) (pdf_kwargs p))
          (io_seq (page_close e)
          (io_seq (logger (Info_PdfGenerated p))
                  (io_return True)))))) s4 = (Inr True, s')"
    by (rule io_seq_Inr)
  from r4 obtain u5 s5 where 5: "ext e (Goto (file_url e h) ''networkidle'' 30000) s4 = (Inr u5, s5)"
    and r5: "io_seq (asyncio_sleep 2)
          (io_seq (wait_for_page_ready e)
          (io_seq (page_pdf e (file_url e h) (pdf_kwargs p))
          (io_seq (page_close e)
          (io_seq (logger (Info_PdfGenerated p))
                  (io_return True))))) s5 = (Inr True, s')"
    by (rule io_seq_Inr)
  from r5 obtain u6 s6 where 6: "asyncio_sleep 2 s5 = (Inr u6, s6)"
    and r6: "io_seq (wait_for_page_ready e)
          (io_seq (page_pdf e (file_url e h) (pdf_kwargs p))
          (io_seq (page_close e)
          (io_seq (logger (Info_PdfGenerated p))
                  (io_return True)))) s6 = (Inr True, s')"
    by (rule io_seq_Inr)
  from r6 obtain u7 s7 where 7: "wait_for_page_ready e s6 = (Inr u7, s7)"
    and r7: "io_seq (page_pdf e (file_url e h) (pdf_kwargs p))
          (io_seq (page_close e)
          (io_seq (logger (Info_PdfGenerated p))
                  (io_return True))) s7 = (Inr True, s')"
    by (rule io_seq_Inr)
  from r7 obtain u8 s8 where 8: "page_pdf e (file_url e h) (pdf_kwargs p) s7 = (Inr u8, s8)"
    and r8: "io_seq (page_close e)
          (io_seq (logger (Info_PdfGenerated p))
                  (io_return True)) s8 = (Inr True, s')"
    by (rule io_seq_Inr)
  from r8 obtain u9 s9 where 9: "page_close e s8 = (Inr u9, s9)"
    and r9: "io_seq (logger (Info_PdfGenerated p)) (io_return True) s9 = (Inr True, s')"
    by (rule io_seq_Inr)
  have t1: "trace s1 = trace s @ start_calls s" using 1 by (rule start_browser_trace)
  have t2: "trace s2 = trace s1 @ [NewPage]"
    using 2 by (auto simp: new_page_def io_defs split: if_splits)
  have t3: "trace s3 = trace s2 @ [SetViewportSize 1280 720]" using 3 by (rule ext_trace)
  have t4: "trace s4 = trace s3" using 4 by (auto simp: io_defs)
  have t5: "trace s5 = trace s4 @ [Goto (file_url e h) ''networkidle'' 30000]"
    using 5 by (rule ext_trace)
  have t6: "trace s6 = trace s5 @ [Sleep 2]" using 6 by (auto simp: io_defs)
  have t7: "trace s7 = trace s6 @ wait_calls e (length (trace s6))"
    using wait_trace[of e s6] 7 by simp
  have t8: "trace s8 = trace s7 @ [PagePdf (pdf_kwargs p)]"
    using 8 by (auto simp: page_pdf_def io_defs split: if_splits)
  have t9: "trace s9 = trace s8 @ [PageClose]"
    using 9 by (auto simp: page_close_def io_defs split: if_splits)
  have t10: "trace s' = trace s9" using r9 by (auto simp: io_defs)
  have len: "length (trace s6) = length (trace s) + length (start_calls s) + 4"
    by (simp add: t1 t2 t3 t4 t5 t6)
  show ?thesis
    unfolding calls_since_def t10 t9 t8 t7 len
    by (simp add: t1 t2 t3 t4 t5 t6)
qed

subsection \<open>Page file names\<close>

lemma digit_inj: "a < 10 \<Longrightarrow> b < 10 \<Longrightarrow> digit a = digit b \<Longrightarrow> a = b"
proof -
  assume a: "a < 10" and b: "b < 10" and eq: "digit a = digit b"
  from eq have "(of_char (char_of (48 + a)) :: nat) = of_char (char_of (48 + b))"
    by (simp add: digit_def)
  then show "a = b" using a b by simp
qed

lemma str_not_Nil: "str n \<noteq> []"
  by (subst str.simps) simp

lemma str_inj: "str m = str n \<Longrightarrow> m = n"
proof (induction m arbitrary: n rule: str.induct)
  case (1 m)
  show ?case
  proof (cases "m < 10")
    case True
    then have m: "str m = [digit m]" by (subst str.simps) simp
    show ?thesis
    proof (cases "n < 10")
      case nlt: True
      then have "str n = [digit n]" by (subst str.simps) simp
      with m "1.prems" have "digit m = digit n" by simp
      then show ?thesis using True nlt by (rule digit_inj[rotated 2])
    next
      case False
      then have "str n = str (n div 10) @ [digit (n mod 10)]" by (subst str.simps) simp
      with m "1.prems" show ?thesis using str_not_Nil[of "n div 10"] by simp
    qed
  next
    case False
    then have m: "str m = str (m div 10) @ [digit (m mod 10)]" by (subst str.simps) simp
    show ?thesis
    proof (cases "n < 10")
      case True
      then have "str n = [digit n]" by (subst str.simps) simp
      with m "1.prems" show ?thesis using str_not_Nil[of "m div 10"] by simp
    next
      case nge: False
      then have "str n = str (n div 10) @ [digit (n mod 10)]" by (subst str.simps) simp
      with m "1.prems" have eq: "str (m div 10) = str (n div 10)"
        and d: "digit (m mod 10) = digit (n mod 10)" by simp_all
      from "1.IH"[OF False eq] have "m div 10 = n div 10" .
      moreover from d have "m mod 10 = n mod 10" by (intro digit_inj) simp_all
      ultimately show ?thesis by (metis div_mult_mod_eq)
    qed
  qed
qed

lemma slide_pdf_path_inj: "slide_pdf_path out i = slide_pdf_path out j \<Longrightarrow> i = j"
proof -
  assume "slide_pdf_path out i = slide_pdf_path out j"
  then have "str (i + 1) = str (j + 1)"
    by (simp add: slide_pdf_path_def os_path_join_def split: if_splits)
  then show "i = j" using str_inj by fastforce
qed

subsection \<open>The loop\<close>

lemma successful_Cons [simp]:
  "successful (x # xs) (b # bs) = (if b then x # successful xs bs else successful xs bs)"
  by (simp add: successful_def)

lemma successful_Nil [simp]: "successful [] bs = []" "successful xs [] = []"
  by (simp_all add: successful_def)

lemma convert_cases:
  obtains s1 where "convert_html_to_pdf e h p s = (Inr True, s1)"
  | s1 where "convert_html_to_pdf e h p s = (Inr False, s1)"
proof (cases "convert_html_to_pdf e h p s")
  case (Pair r s1)
  then show ?thesis using convert_never_raises[of e h p s] that by (cases r) auto
qed

lemma convert_each_True:
  "convert_html_to_pdf e h (slide_pdf_path out i) s = (Inr True, s1) \<Longrightarrow>
   convert_each e out i (h # rest) acc s
     = convert_each e out (Suc i) rest (acc @ [slide_pdf_path out i]) s1"
  by (simp add: io_bind_def)

lemma convert_each_False:
  "convert_html_to_pdf e h (slide_pdf_path out i) s = (Inr False, s1) \<Longrightarrow>
   convert_each e out i (h # rest) acc s
     = convert_each e out (Suc i) rest acc (snd (logger (Error_JobFailed h) s1))"
  by (simp add: io_defs)

lemma convert_each_result:
  "fst (convert_each e out i hs acc s)
   = Inr (acc @ successful (map (slide_pdf_path out) [i..<i + length hs]) (job_results e out i hs s))"
proof (induction hs arbitrary: i acc s)
  case Nil
  then show ?case by (simp add: io_return_def)
next
  case (Cons h rest)
  have upt: "[i..<i + length (h # rest)] = i # [Suc i..<Suc i + length rest]"
    using upt_conv_Cons[of i "i + length (h # rest)"] by simp
  show ?case
  proof (cases rule: convert_cases[of e h "slide_pdf_path out i" s])
    case (1 s1)
    then show ?thesis
      unfolding upt by (simp add: convert_each_True[OF 1] Cons.IH del: convert_each.simps)
  next
    case (2 s1)
    then show ?thesis
      unfolding upt by (simp add: convert_each_False[OF 2] Cons.IH del: convert_each.simps)
  qed
qed

lemma convert_each_files:
  "frame (same_files_except (slide_pdf_path out ` {i..<i + length hs})) (convert_each e out i hs acc)"
proof (induction hs arbitrary: i acc)
  case Nil
  show ?case by (simp add: frame_def same_files_except_def io_return_def)
next
  case (Cons h rest)
  let ?Q = "slide_pdf_path out ` {i..<i + length (h # rest)}"
  have a: "frame (same_files_except ?Q) (convert_html_to_pdf e h (slide_pdf_path out i))"
    by (rule same_files_mono[OF _ convert_files]) auto
  have b: "\<And>acc'. frame (same_files_except ?Q) (convert_each e out (Suc i) rest acc')"
    by (rule same_files_mono[OF _ Cons.IH]) auto
  have c: "frame (same_files_except ?Q) (logger (Error_JobFailed h))"
    by (rule frame_logger) (simp add: same_files_except_def)
  have eq: "convert_each e out i (h # rest) acc
        = io_bind (convert_html_to_pdf e h (slide_pdf_path out i))
            (\<lambda>success. if success then
                 convert_each e out (Suc i) rest (acc @ [slide_pdf_path out i])
               else io_seq (logger (Error_JobFailed h)) (convert_each e out (Suc i) rest acc))"
    by (rule ext) simp
  show ?case
    unfolding eq
  proof (rule frame_bind[OF same_files_pre(2) a])
    fix success
    show "frame (same_files_except ?Q)
            (if success then convert_each e out (Suc i) rest (acc @ [slide_pdf_path out i])
             else io_seq (logger (Error_JobFailed h)) (convert_each e out (Suc i) rest acc))"
      using b c by (cases success) (simp_all add: frame_seq same_files_pre)
  qed
qed

lemma convert_each_pages:
  "map (files (snd (convert_each e out i hs acc s)))
       (successful (map (slide_pdf_path out) [i..<i + length hs]) (job_results e out i hs s))
   = map (\<lambda>h. Some (Pdf [Page (file_url e h) ''338.67mm'' ''190.5mm'']))
       (successful hs (job_results e out i hs s))"
proof (induction hs arbitrary: i acc s)
  case Nil
  then show ?case by simp
next
  case (Cons h rest)
  have upt: "[i..<i + length (h # rest)] = i # [Suc i..<Suc i + length rest]"
    using upt_conv_Cons[of i "i + length (h # rest)"] by simp
  show ?case
  proof (cases rule: convert_cases[of e h "slide_pdf_path out i" s])
    case (1 s1)
    let ?acc = "acc @ [slide_pdf_path out i]"
    have "slide_pdf_path out i \<notin> slide_pdf_path out ` {Suc i..<Suc i + length rest}"
      using slide_pdf_path_inj by fastforce
    then have "files (snd (convert_each e out (Suc i) rest ?acc s1)) (slide_pdf_path out i)
          = files s1 (slide_pdf_path out i)"
      using convert_each_files[of out "Suc i" rest e ?acc]
      by (simp add: frame_def same_files_except_def)
    also have "\<dots> = Some (Pdf [Page (file_url e h) ''338.67mm'' ''190.5mm''])"
      using convert_True_run(3)[OF 1] .
    finally have here: "files (snd (convert_each e out (Suc i) rest ?acc s1)) (slide_pdf_path out i)
          = Some (Pdf [Page (file_url e h) ''338.67mm'' ''190.5mm''])" .
    define ps where "ps = map (slide_pdf_path out) [Suc i..<Suc i + length rest]"
    define bs where "bs = job_results e out (Suc i) rest s1"
    have IH: "map (files (snd (convert_each e out (Suc i) rest ?acc s1))) (successful ps bs)
          = map (\<lambda>h. Some (Pdf [Page (file_url e h) ''338.67mm'' ''190.5mm''])) (successful rest bs)"
      unfolding ps_def bs_def by (rule Cons.IH)
    have l: "map (slide_pdf_path out) [i..<i + length (h # rest)] = slide_pdf_path out i # ps"
      unfolding upt ps_def by simp
    have r: "job_results e out i (h # rest) s = True # bs"
      unfolding bs_def by (simp add: 1)
    show ?thesis
      unfolding l r convert_each_True[OF 1] using here IH by simp
  next
    case (2 s1)
    let ?s = "snd (logger (Error_JobFailed h) s1)"
    define ps where "ps = map (slide_pdf_path out) [Suc i..<Suc i + length rest]"
    define bs where "bs = job_results e out (Suc i) rest ?s"
    have IH: "map (files (snd (convert_each e out (Suc i) rest acc ?s))) (successful ps bs)
          = map (\<lambda>h. Some (Pdf [Page (file_url e h) ''338.67mm'' ''190.5mm''])) (successful rest bs)"
      unfolding ps_def bs_def by (rule Cons.IH)
    have l: "map (slide_pdf_path out) [i..<i + length (h # rest)] = slide_pdf_path out i # ps"
      unfolding upt ps_def by simp
    have r: "job_results e out i (h # rest) s = False # bs"
      unfolding bs_def by (simp add: 2)
    show ?thesis
      unfolding l r convert_each_False[OF 2] using IH by simp
  qed
qed

subsection \<open>Merging\<close>

lemma append_existing_run:
  "\<exists>cs. snd (append_existing e ps acc s) = s\<lparr>trace := trace s @ cs\<rparr>
      \<and> set cs \<subseteq> MergerAppend ` set ps
      \<and> (case fst (append_existing e ps acc s) of
            Inr pages \<Rightarrow> pages = acc @ concat (map (pages_of s) ps)
          | Inl x \<Rightarrow> x \<in> PdfReadError ` set ps \<union> (\<lambda>p. CallFailed (MergerAppend p)) ` set ps)"
proof (induction ps arbitrary: acc s)
  case Nil
  show ?case by (rule exI[of _ "[]"]) (simp add: io_return_def)
next
  case (Cons p rest)
  show ?case
  proof (cases "os_path_exists s p")
    case False
    then have nil: "pages_of s p = []" by (simp add: pages_of_def os_path_exists_def)
    from Cons.IH[of acc s] obtain cs where
      "snd (append_existing e rest acc s) = s\<lparr>trace := trace s @ cs\<rparr>"
      "set cs \<subseteq> MergerAppend ` set rest"
      "(case fst (append_existing e rest acc s) of
            Inr pages \<Rightarrow> pages = acc @ concat (map (pages_of s) rest)
          | Inl x \<Rightarrow> x \<in> PdfReadError ` set rest \<union> (\<lambda>p. CallFailed (MergerAppend p)) ` set rest)"
      by blast
    then show ?thesis using False nil
      by (intro exI[of _ cs]) (auto split: sum.splits)
  next
    case True
    let ?s1 = "s\<lparr>trace := trace s @ [MergerAppend p]\<rparr>"
    show ?thesis
    proof (cases "succeeds e (length (trace s)) (MergerAppend p)
                  \<and> (\<exists>pages. files s p = Some (Pdf pages))")
      case False
      then have "fst (merger_append e p acc s)
                   \<in> {Inl (PdfReadError p), Inl (CallFailed (MergerAppend p))}"
        and "snd (merger_append e p acc s) = ?s1"
        by (auto simp: merger_append_def io_defs split: option.splits content.splits)
      then show ?thesis using True
        by (intro exI[of _ "[MergerAppend p]"])
           (auto simp: io_bind_def split: prod.splits sum.splits)
    next
      case ok: True
      then obtain pages where pages: "files s p = Some (Pdf pages)" by blast
      have step: "merger_append e p acc s = (Inr (acc @ pages), ?s1)"
        using ok pages by (simp add: merger_append_def io_defs)
      have po: "pages_of ?s1 = pages_of s" by (rule ext) (simp add: pages_of_def)
      from Cons.IH[of "acc @ pages" ?s1] obtain cs where
        a: "snd (append_existing e rest (acc @ pages) ?s1) = ?s1\<lparr>trace := trace ?s1 @ cs\<rparr>"
        and b: "set cs \<subseteq> MergerAppend ` set rest"
        and c: "(case fst (append_existing e rest (acc @ pages) ?s1) of
            Inr pgs \<Rightarrow> pgs = (acc @ pages) @ concat (map (pages_of ?s1) rest)
          | Inl x \<Rightarrow> x \<in> PdfReadError ` set rest \<union> (\<lambda>p. CallFailed (MergerAppend p)) ` set rest)"
        by blast
      have pp: "pages_of s p = pages" using pages by (simp add: pages_of_def)
      show ?thesis using True step a b c pp
        by (intro exI[of _ "MergerAppend p # cs"])
           (auto simp: io_bind_def po split: sum.splits)
    qed
  qed
qed

lemma merge_pdfs_exact:
  "merge_pdfs e pdfs out s =
     (if \<not> PyPDF2_importable e then (Inr (), s\<lparr>logged := logged s @ [Warning_NoPyPDF2]\<rparr>)
      else
        (case append_existing e pdfs [] s of
           (Inl x, s1) \<Rightarrow> (Inr (), s1\<lparr>logged := logged s1 @ [Error_MergeFailed x]\<rparr>)
         | (Inr merger, s1) \<Rightarrow>
             if \<not> succeeds e (length (trace s1)) (OpenWb out) then
               (Inr (), s1\<lparr>trace := trace s1 @ [OpenWb out],
                           logged := logged s1 @ [Error_MergeFailed (CallFailed (OpenWb out))]\<rparr>)
             else if \<not> succeeds e (length (trace s1) + 1) (MergerWrite out) then
               (Inr (), s1\<lparr>files := (files s1)(out \<mapsto> Truncated),
                           trace := trace s1 @ [OpenWb out, MergerWrite out],
                           logged := logged s1 @ [Error_MergeFailed (CallFailed (MergerWrite out))]\<rparr>)
             else if \<not> succeeds e (length (trace s1) + 2) MergerClose then
               (Inr (), s1\<lparr>files := (files s1)(out \<mapsto> Pdf merger),
                           trace := trace s1 @ [OpenWb out, MergerWrite out, MergerClose],
                           logged := logged s1 @ [Error_MergeFailed (CallFailed MergerClose)]\<rparr>)
             else
               (Inr (), s1\<lparr>files := (files s1)(out \<mapsto> Pdf merger),
                           trace := trace s1 @ [OpenWb out, MergerWrite out, MergerClose],
                           logged := logged s1 @ [Info_MergeDone out]\<rparr>)))"
proof (cases "PyPDF2_importable e")
  case False
  then show ?thesis by (simp add: merge_pdfs_def import_PdfMerger_def io_defs)
next
  case True
  obtain a s1 where run: "append_existing e pdfs [] s = (a, s1)"
    by (cases "append_existing e pdfs [] s")
  show ?thesis
  proof (cases a)
    case (Inl x)
    have "x \<noteq> ImportError"
      using append_existing_run[of e pdfs "[]" s] run Inl by auto
    then show ?thesis
      using True run Inl by (simp add: merge_pdfs_def import_PdfMerger_def io_defs)
  next
    case (Inr merger)
    then show ?thesis
      using True run
      by (simp add: merge_pdfs_def import_PdfMerger_def write_output_def io_defs)
  qed
qed

lemma merge_pdfs_returns: "fst (merge_pdfs e pdfs out s) = Inr ()"
  by (simp add: merge_pdfs_exact split: prod.splits sum.splits)

lemma merge_pdfs_handles:
  "browser (snd (merge_pdfs e pdfs out s)) = browser s"
  "playwright (snd (merge_pdfs e pdfs out s)) = playwright s"
  "live_browsers (snd (merge_pdfs e pdfs out s)) = live_browsers s"
proof -
  obtain cs where "snd (append_existing e pdfs [] s) = s\<lparr>trace := trace s @ cs\<rparr>"
    using append_existing_run[of e pdfs "[]" s] by blast
  then show "browser (snd (merge_pdfs e pdfs out s)) = browser s"
    "playwright (snd (merge_pdfs e pdfs out s)) = playwright s"
    "live_browsers (snd (merge_pdfs e pdfs out s)) = live_browsers s"
    by (auto simp: merge_pdfs_exact split: prod.splits sum.splits)
qed

lemma append_existing_ok:
  assumes "\<forall>n p. succeeds e n (MergerAppend p)"
    and "\<forall>p \<in> set ps. files s p \<noteq> Some Html \<and> files s p \<noteq> Some Truncated"
  shows "fst (append_existing e ps acc s) = Inr (acc @ concat (map (pages_of s) ps))"
  using assms(2)
proof (induction ps arbitrary: acc s)
  case Nil
  show ?case by (simp add: io_return_def)
next
  case (Cons p rest)
  let ?s1 = "s\<lparr>trace := trace s @ [MergerAppend p]\<rparr>"
  have po: "pages_of ?s1 = pages_of s" by (rule ext) (simp add: pages_of_def)
  show ?case
  proof (cases "files s p")
    case None
    then show ?thesis using Cons by (simp add: os_path_exists_def pages_of_def)
  next
    case (Some c)
    then obtain pages where pages: "files s p = Some (Pdf pages)"
      using Cons.prems by (cases c) auto
    have step: "merger_append e p acc s = (Inr (acc @ pages), ?s1)"
      using assms(1) pages by (simp add: merger_append_def io_defs)
    have "fst (append_existing e rest (acc @ pages) ?s1)
          = Inr ((acc @ pages) @ concat (map (pages_of ?s1) rest))"
      using Cons.prems by (intro Cons.IH) simp
    moreover have "pages_of s p = pages" using pages by (simp add: pages_of_def)
    ultimately show ?thesis using pages step
      by (simp add: os_path_exists_def io_bind_def po)
  qed
qed

lemma merge_pdfs_ok:
  assumes "PyPDF2_importable e" "\<forall>n p. succeeds e n (MergerAppend p)"
    and "\<forall>n. succeeds e n (OpenWb out)" "\<forall>n. succeeds e n (MergerWrite out)"
    and "\<forall>p \<in> set pdfs. files s p \<noteq> Some Html \<and> files s p \<noteq> Some Truncated"
  shows "files (snd (merge_pdfs e pdfs out s)) out = Some (Pdf (concat (map (pages_of s) pdfs)))"
proof -
  obtain s1 where run: "append_existing e pdfs [] s = (Inr (concat (map (pages_of s) pdfs)), s1)"
    using append_existing_ok[OF assms(2,5), of "[]"] by (cases "append_existing e pdfs [] s") simp
  have "files s1 = files s"
    using append_existing_run[of e pdfs "[]" s] run by auto
  then show ?thesis
    using assms(1,3,4) run by (simp add: merge_pdfs_exact)
qed

subsection \<open>Teardown\<close>

lemmas close_defs = close_browser_def browser_close_def playwright_stop_def

lemma close_browser_frame:
  "files (snd (close_browser e s)) = files s"
  "logged (snd (close_browser e s)) = logged s"
  "set (calls_since s (snd (close_browser e s))) \<subseteq> {BrowserClose, PlaywrightStop}"
  by (auto simp: close_defs io_defs calls_since_def split: option.splits)

lemma close_browser_Inr:
  "fst (close_browser e s) = Inr () \<Longrightarrow>
     browser (snd (close_browser e s)) = None \<and> playwright (snd (close_browser e s)) = None"
  by (auto simp: close_defs io_defs split: option.splits if_splits)

lemma close_browser_Inl:
  "fst (close_browser e s) = Inl x \<Longrightarrow> x = CallFailed BrowserClose \<or> x = CallFailed PlaywrightStop"
  by (auto simp: close_defs io_defs split: option.splits if_splits)

lemma close_browser_ok:
  "\<forall>n. succeeds e n BrowserClose \<and> succeeds e n PlaywrightStop \<Longrightarrow> fst (close_browser e s) = Inr ()"
  by (auto simp: close_defs io_defs split: option.splits if_splits)

lemma finally_return:
  "fst (io_finally (io_return v) (close_browser e) s)
     = (case fst (close_browser e s) of Inl x \<Rightarrow> Inl x | Inr u \<Rightarrow> Inr v)"
  "snd (io_finally (io_return v) (close_browser e) s) = snd (close_browser e s)"
  by (auto simp: io_finally_def io_return_def split: prod.splits sum.splits)

subsection \<open>The batch, path by path\<close>

lemma batch_start_Inr:
  assumes "batch_start e out s = (Inr (), s1)"
  shows "succeeds e (length (trace s)) (Makedirs out)"
    and "start_browser e (s\<lparr>trace := trace s @ [Makedirs out]\<rparr>) = (Inr (), s1)"
  using assms by (auto simp: batch_start_def io_defs split: if_splits)

lemma batch_no_dir:
  assumes "\<not> succeeds e (length (trace s)) (Makedirs out)"
  shows "convert_multiple_html_to_pdf e hs out merged s
         = (Inl (CallFailed (Makedirs out)), s\<lparr>trace := trace s @ [Makedirs out]\<rparr>)"
  using assms by (simp add: convert_multiple_html_to_pdf_def io_defs)

lemma batch_not_started:
  assumes "succeeds e (length (trace s)) (Makedirs out)"
    and "start_browser e (s\<lparr>trace := trace s @ [Makedirs out]\<rparr>) = (Inl x, s1)"
  shows "convert_multiple_html_to_pdf e hs out merged s
         = io_finally (io_return []) (close_browser e) (s1\<lparr>logged := logged s1 @ [Error_BatchFailed x]\<rparr>)"
  using assms by (simp add: convert_multiple_html_to_pdf_def io_defs)

lemma convert_each_run:
  obtains s2 where "convert_each e out i hs acc s
      = (Inr (acc @ successful (map (slide_pdf_path out) [i..<i + length hs])
                      (job_results e out i hs s)), s2)"
  using convert_each_result[of e out i hs acc s]
  by (cases "convert_each e out i hs acc s") simp

lemma batch_plain:
  assumes "batch_start e out s = (Inr (), s1)"
    and "convert_each e out 0 hs [] s1 = (Inr pdfs, s2)"
    and "merged = None \<or> merged = Some [] \<or> pdfs = []"
  shows "convert_multiple_html_to_pdf e hs out merged s
         = io_finally (io_return pdfs) (close_browser e) s2"
  using batch_start_Inr[OF assms(1)] assms(2,3)
  by (auto simp: convert_multiple_html_to_pdf_def io_defs split: option.splits)

lemma batch_merging:
  assumes "batch_start e out s = (Inr (), s1)"
    and "convert_each e out 0 hs [] s1 = (Inr pdfs, s2)"
    and "m \<noteq> []" "pdfs \<noteq> []"
  shows "convert_multiple_html_to_pdf e hs out (Some m) s
         = io_finally (io_return [m]) (close_browser e) (snd (merge_pdfs e pdfs m s2))"
proof -
  obtain s3 where "merge_pdfs e pdfs m s2 = (Inr (), s3)"
    using merge_pdfs_returns[of e pdfs m s2] by (cases "merge_pdfs e pdfs m s2") simp
  then show ?thesis
    using batch_start_Inr[OF assms(1)] assms(2,3,4)
    by (simp add: convert_multiple_html_to_pdf_def io_defs)
qed

lemma length_job_results: "length (job_results e out i hs s) = length hs"
proof (induction hs arbitrary: i s)
  case Nil
  show ?case by simp
next
  case (Cons h rest)
  show ?case
    by (cases rule: convert_cases[of e h "slide_pdf_path out i" s]) (simp_all add: Cons.IH)
qed

lemma length_successful: "length (successful xs bs) \<le> length xs"
proof -
  have "length (successful xs bs) \<le> length (zip xs bs)"
    unfolding successful_def length_map by (rule length_filter_le)
  also have "\<dots> \<le> length xs" by simp
  finally show ?thesis .
qed

lemma successful_not_Nil:
  "length xs = length bs \<Longrightarrow> True \<in> set bs \<Longrightarrow> successful xs bs \<noteq> []"
proof (induction xs bs rule: list_induct2)
  case Nil
  then show ?case by simp
next
  case (Cons x xs b bs)
  then show ?case by (cases b) auto
qed

lemma files_of_successful:
  assumes "map (files s) ps = map (\<lambda>h. Some (Pdf [f h])) hs"
  shows "\<forall>p \<in> set ps. files s p \<noteq> Some Html \<and> files s p \<noteq> Some Truncated"
    and "concat (map (pages_of s) ps) = map f hs"
proof -
  show "\<forall>p \<in> set ps. files s p \<noteq> Some Html \<and> files s p \<noteq> Some Truncated"
  proof
    fix p assume "p \<in> set ps"
    then have "files s p \<in> set (map (files s) ps)" by simp
    then have "files s p \<in> set (map (\<lambda>h. Some (Pdf [f h])) hs)" using assms by simp
    then show "files s p \<noteq> Some Html \<and> files s p \<noteq> Some Truncated" by auto
  qed
  have "map (pages_of s) ps = map (\<lambda>c. case c of Some (Pdf pages) \<Rightarrow> pages | _ \<Rightarrow> []) (map (files s) ps)"
    by (simp add: pages_of_def)
  also have "\<dots> = map (\<lambda>h. [f h]) hs" unfolding assms by simp
  finally show "concat (map (pages_of s) ps) = map f hs" by simp
qed

subsection \<open>The session invariant through the loop, the merge and the batch\<close>

lemma convert_each_inv: "frame keeps_inv (convert_each e out i hs acc)"
proof (induction hs arbitrary: i acc)
  case Nil
  show ?case by (simp add: frame_def keeps_inv_def io_return_def)
next
  case (Cons h rest)
  have c: "frame keeps_inv (logger (Error_JobFailed h))"
    by (rule frame_logger) (simp add: keeps_inv_def session_inv_def)
  have eq: "convert_each e out i (h # rest) acc
        = io_bind (convert_html_to_pdf e h (slide_pdf_path out i))
            (\<lambda>success. if success then
                 convert_each e out (Suc i) rest (acc @ [slide_pdf_path out i])
               else io_seq (logger (Error_JobFailed h)) (convert_each e out (Suc i) rest acc))"
    by (rule ext) simp
  show ?case
    unfolding eq
  proof (rule frame_bind[OF keeps_inv_pre(2) convert_inv])
    fix success
    show "frame keeps_inv
            (if success then convert_each e out (Suc i) rest (acc @ [slide_pdf_path out i])
             else io_seq (logger (Error_JobFailed h)) (convert_each e out (Suc i) rest acc))"
      using Cons.IH c by (cases success) (simp_all add: frame_seq keeps_inv_pre)
  qed
qed

lemma merge_pdfs_inv: "frame keeps_inv (merge_pdfs e pdfs m)"
  by (simp add: frame_def keeps_inv_def session_inv_def merge_pdfs_handles)

lemma batch_inv: "frame keeps_inv (convert_multiple_html_to_pdf e hs out merged)"
proof -
  have k: "\<And>pdf_files. frame keeps_inv
        (case merged of
           Some m \<Rightarrow> if m \<noteq> [] \<and> pdf_files \<noteq> [] then
                        io_seq (merge_pdfs e pdf_files m) (io_return [m])
                     else io_return pdf_files
         | None \<Rightarrow> io_return pdf_files)"
    by (cases merged) (simp_all add: frame_seq frame_return merge_pdfs_inv keeps_inv_pre)
  show ?thesis
    unfolding convert_multiple_html_to_pdf_def
    by (intro frame_intros keeps_inv_pre start_browser_inv convert_each_inv close_browser_inv k)
       (simp_all add: keeps_inv_def session_inv_def)
qed

lemma session_invD: "frame keeps_inv m \<Longrightarrow> session_inv s \<Longrightarrow> session_inv (snd (m s))"
  by (simp add: frame_def keeps_inv_def)

lemma session_inv_card: "session_inv s \<Longrightarrow> card (live_browsers s) \<le> 1"
  by (cases "browser s") (simp_all add: session_inv_def)

subsection \<open>Session startup that fails\<close>

lemma start_browser_Inl:
  assumes "start_browser e s = (Inl x, s1)"
  shows "files s1 = files s"
    and "\<exists>cs. trace s1 = trace s @ cs \<and> set cs \<subseteq> {PlaywrightStart, ChromiumLaunch True launch_args}"
  using assms
  by (auto simp: start_browser_def playwright_start_def chromium_launch_def io_defs
           split: if_splits)

lemma close_browser_trace:
  "\<exists>cs. trace (snd (close_browser e s)) = trace s @ cs \<and> set cs \<subseteq> {BrowserClose, PlaywrightStop}"
  by (auto simp: close_defs io_defs split: option.splits)

subsection \<open>The handles through the guarded block, and the calls of the teardown\<close>

lemma keeps_handles_pre: "reflp keeps_handles" "transp keeps_handles"
  by (auto simp: keeps_handles_def reflp_def transp_def)

lemma start_browser_handles: "frame keeps_handles (start_browser e)"
  unfolding start_browser_def[abs_def] playwright_start_def[abs_def] chromium_launch_def[abs_def]
  by (auto simp: frame_def keeps_handles_def io_defs split: prod.splits sum.splits if_splits)

lemma wait_handles: "frame keeps_handles (wait_for_page_ready e)"
  unfolding wait_for_page_ready_def asyncio_sleep_def
  by (intro frame_intros keeps_handles_pre) (simp_all add: keeps_handles_def)

lemma convert_handles: "frame keeps_handles (convert_html_to_pdf e h p)"
  unfolding convert_html_to_pdf_def[abs_def] new_page_def page_pdf_def page_close_def
    asyncio_sleep_def
  by (intro frame_cond frame_intros keeps_handles_pre start_browser_handles wait_handles)
     (simp_all add: keeps_handles_def)

lemma convert_each_handles: "frame keeps_handles (convert_each e out i hs acc)"
proof (induction hs arbitrary: i acc)
  case Nil
  show ?case by (simp add: frame_def keeps_handles_def io_return_def)
next
  case (Cons h rest)
  have c: "frame keeps_handles (logger (Error_JobFailed h))"
    by (rule frame_logger) (simp add: keeps_handles_def)
  have eq: "convert_each e out i (h # rest) acc
        = io_bind (convert_html_to_pdf e h (slide_pdf_path out i))
            (\<lambda>success. if success then
                 convert_each e out (Suc i) rest (acc @ [slide_pdf_path out i])
               else io_seq (logger (Error_JobFailed h)) (convert_each e out (Suc i) rest acc))"
    by (rule ext) simp
  show ?case
    unfolding eq
  proof (rule frame_bind[OF keeps_handles_pre(2) convert_handles])
    fix success
    show "frame keeps_handles
            (if success then convert_each e out (Suc i) rest (acc @ [slide_pdf_path out i])
             else io_seq (logger (Error_JobFailed h)) (convert_each e out (Suc i) rest acc))"
      using Cons.IH c by (cases success) (simp_all add: frame_seq keeps_handles_pre)
  qed
qed

lemma merge_pdfs_keeps_handles: "frame keeps_handles (merge_pdfs e pdfs m)"
  by (simp add: frame_def keeps_handles_def merge_pdfs_handles)

lemma start_browser_Inr_browser:
  "start_browser e s = (Inr (), s1) \<Longrightarrow> browser s1 \<noteq> None"
  by (auto simp: start_browser_def playwright_start_def chromium_launch_def io_defs
           split: if_splits)

lemma start_browser_fresh:
  assumes "browser s = None" "fst (start_browser e s) = Inr ()"
  shows "calls_since s (snd (start_browser e s)) = [PlaywrightStart, ChromiumLaunch True launch_args]"
    and "browser (snd (start_browser e s)) = Some (Suc (length (trace s)))"
    and "playwright (snd (start_browser e s)) = Some (length (trace s))"
  using assms
  by (auto simp: start_browser_def playwright_start_def chromium_launch_def io_defs
        calls_since_def split: if_splits)

lemma batch_unfold:
  "convert_multiple_html_to_pdf e hs out merged
   = io_seq (ext e (Makedirs out)) (io_finally (batch_try e hs out merged) (close_browser e))"
  by (simp add: convert_multiple_html_to_pdf_def batch_try_def)

lemma batch_try_handles:
  "browser (snd (batch_try e hs out merged s0)) = browser (snd (start_browser e s0))"
  "playwright (snd (batch_try e hs out merged s0)) = playwright (snd (start_browser e s0))"
proof -
  let ?rest = "io_bind (convert_each e out 0 hs [])
           (\<lambda>pdf_files.
              case merged of
                Some m \<Rightarrow>
                  if m \<noteq> [] \<and> pdf_files \<noteq> [] then
                    io_seq (merge_pdfs e pdf_files m) (io_return [m])
                  else io_return pdf_files
              | None \<Rightarrow> io_return pdf_files)"
  have k: "\<And>pdf_files. frame keeps_handles
        (case merged of
           Some m \<Rightarrow> if m \<noteq> [] \<and> pdf_files \<noteq> [] then
                        io_seq (merge_pdfs e pdf_files m) (io_return [m])
                     else io_return pdf_files
         | None \<Rightarrow> io_return pdf_files)"
    by (cases merged)
       (simp_all add: frame_seq frame_return merge_pdfs_keeps_handles keeps_handles_pre)
  have rest: "frame keeps_handles ?rest"
    by (intro frame_bind keeps_handles_pre convert_each_handles k)
  obtain q s1 where start: "start_browser e s0 = (q, s1)" by (cases "start_browser e s0")
  have "browser (snd (batch_try e hs out merged s0)) = browser s1
        \<and> playwright (snd (batch_try e hs out merged s0)) = playwright s1"
  proof (cases q)
    case (Inl x)
    then show ?thesis using start by (simp add: batch_try_def io_defs)
  next
    case (Inr u)
    obtain r s2 where run: "?rest s1 = (r, s2)" by (cases "?rest s1")
    have "browser s1 \<noteq> None" using start Inr start_browser_Inr_browser by auto
    moreover have "keeps_handles s1 s2" using rest run by (rule frameD)
    ultimately have "browser s2 = browser s1 \<and> playwright s2 = playwright s1"
      by (simp add: keeps_handles_def)
    moreover have body: "io_seq (start_browser e) ?rest s0 = (r, s2)"
      using start Inr run by (simp add: io_seq_def io_bind_def)
    have "batch_try e hs out merged s0
          = (case r of
               Inl x \<Rightarrow> io_seq (logger (Error_BatchFailed x)) (io_return []) s2
             | Inr a \<Rightarrow> (Inr a, s2))"
      by (simp add: batch_try_def io_try_def body)
    ultimately show ?thesis
      by (cases r) (simp_all add: io_defs)
  qed
  then show "browser (snd (batch_try e hs out merged s0)) = browser (snd (start_browser e s0))"
    "playwright (snd (batch_try e hs out merged s0)) = playwright (snd (start_browser e s0))"
    using start by simp_all
qed

lemma close_browser_calls:
  "calls_since t (snd (close_browser e t)) = teardown_calls e t"
  by (auto simp: close_defs io_defs calls_since_def teardown_calls_def split: option.splits)

lemma close_browser_raises:
  assumes "browser t = Some b" "\<not> succeeds e (length (trace t)) BrowserClose"
  shows "fst (close_browser e t) = Inl (CallFailed BrowserClose)"
    and "browser (snd (close_browser e t)) = Some b"
    and "live_browsers (snd (close_browser e t)) = live_browsers t"
  using assms by (auto simp: close_defs io_defs)

lemma finally_fst:
  "fst (io_finally m c s)
     = (case fst (c (snd (m s))) of Inl x \<Rightarrow> Inl x | Inr u \<Rightarrow> fst (m s))"
  "snd (io_finally m c s) = snd (c (snd (m s)))"
  by (auto simp: io_finally_def split: prod.splits sum.splits)

subsection \<open>Evaluation on concrete inputs\<close>

lemma slide_names:
  "slide_pdf_path ''/out'' 0 = ''/out/slide_1.pdf''"
  "slide_pdf_path ''/out'' (Suc 0) = ''/out/slide_2.pdf''"
  "slide_pdf_path ''/out'' (Suc (Suc 0)) = ''/out/slide_3.pdf''"
  by code_simp+

lemmas eval_defs = render_defs close_defs io_defs env_defs os_path_exists_def init_def
  slides_1_3_def batch_start_def pdf_kwargs_def file_url_def slide_names

lemmas eval2_defs = eval_defs convert_multiple_html_to_pdf_def merge_pdfs_def import_PdfMerger_def
  merger_append_def write_output_def page_and_old_artifact_def

section \<open>The claims\<close>

text \<open>
  C1, at an input where it fails. Two jobs, the first with a missing source: the batch
  returns one path, not two, and the path at position 0 is the page file of the job at
  position 1.
\<close>

theorem batch_omits_failed_jobs:
  "fst (convert_multiple_html_to_pdf env_ok [''/slides/slide_2.html'', ''/slides/slide_3.html'']
          ''/out'' None (init slides_1_3)) = Inr [''/out/slide_2.pdf'']
   \<and> length [''/out/slide_2.pdf''] \<noteq> length [''/slides/slide_2.html'', ''/slides/slide_3.html'']"
  by (simp add: eval2_defs)

text \<open>
  C1, as the code has it. When the session starts and no merged path is given, a batch
  that returns returns the page-file paths of the jobs whose render returned \<open>True\<close>, in
  job order, the path of the job at position \<open>i\<close> being \<^verbatim>\<open>slide_{i+1}.pdf\<close> in the output
  directory. A failed job has no entry: the list is as long as the number of successful
  jobs, at most as long as the list of jobs.
\<close>

theorem batch_returns_paths_of_successful_jobs:
  assumes "fst (batch_start e output_dir s) = Inr ()"
    and "fst (convert_multiple_html_to_pdf e html_files output_dir None s) = Inr r"
  shows "r = successful (map (slide_pdf_path output_dir) [0..<length html_files])
               (job_results e output_dir 0 html_files (snd (batch_start e output_dir s)))
       \<and> length (job_results e output_dir 0 html_files (snd (batch_start e output_dir s)))
           = length html_files
       \<and> length r \<le> length html_files"
proof -
  let ?s1 = "snd (batch_start e output_dir s)"
  let ?pdfs = "successful (map (slide_pdf_path output_dir) [0..<length html_files])
                 (job_results e output_dir 0 html_files ?s1)"
  have start: "batch_start e output_dir s = (Inr (), ?s1)"
    using assms(1) by (cases "batch_start e output_dir s") simp
  obtain s2 where loop: "convert_each e output_dir 0 html_files [] ?s1 = (Inr ?pdfs, s2)"
    using convert_each_run[of e output_dir 0 html_files "[]" ?s1] by auto
  have "convert_multiple_html_to_pdf e html_files output_dir None s
          = io_finally (io_return ?pdfs) (close_browser e) s2"
    by (rule batch_plain[OF start loop]) simp
  then have "r = ?pdfs"
    using assms(2) by (simp add: finally_return split: sum.splits)
  moreover have "length ?pdfs \<le> length html_files"
    using length_successful[of "map (slide_pdf_path output_dir) [0..<length html_files]"] by simp
  ultimately show ?thesis by (simp add: length_job_results)
qed

theorem batch_returns_paths_witness:
  "fst (batch_start env_ok ''/out'' (init slides_1_3)) = Inr ()
   \<and> fst (convert_multiple_html_to_pdf env_ok [''/slides/slide_1.html'', ''/slides/slide_2.html'']
          ''/out'' None (init slides_1_3)) = Inr [''/out/slide_1.pdf'']
   \<and> job_results env_ok ''/out'' 0 [''/slides/slide_1.html'', ''/slides/slide_2.html'']
        (snd (batch_start env_ok ''/out'' (init slides_1_3))) = [True, False]"
proof -
  have start: "fst (batch_start env_ok ''/out'' (init slides_1_3)) = Inr ()"
    by (simp add: eval_defs)
  have run: "fst (convert_multiple_html_to_pdf env_ok
                [''/slides/slide_1.html'', ''/slides/slide_2.html''] ''/out'' None
                (init slides_1_3)) = Inr [''/out/slide_1.pdf'']"
    by (simp add: eval2_defs)
  have jobs: "job_results env_ok ''/out'' 0 [''/slides/slide_1.html'', ''/slides/slide_2.html'']
        (snd (batch_start env_ok ''/out'' (init slides_1_3))) = [True, False]"
    by (simp add: eval_defs)
  show ?thesis
    using start run jobs batch_returns_paths_of_successful_jobs[OF start run]
    by simp
qed

text \<open>
  C2, at an input where it fails. A page document exists and an older merged document is
  at the output path; the write of the merge raises. The output path then holds a
  truncated file: the calls were append, open for writing, write, on the output path
  itself.
\<close>

theorem failed_write_truncates_output:
  "files (init page_and_old_artifact) ''/out/presentation.pdf''
     = Some (Pdf [Page ''file:///old.html'' ''338.67mm'' ''190.5mm''])
   \<and> files (snd (merge_pdfs env_write_fails [''/out/slide_1.pdf''] ''/out/presentation.pdf''
        (init page_and_old_artifact))) ''/out/presentation.pdf'' = Some Truncated
   \<and> logged (snd (merge_pdfs env_write_fails [''/out/slide_1.pdf''] ''/out/presentation.pdf''
        (init page_and_old_artifact)))
     = [Error_MergeFailed (CallFailed (MergerWrite ''/out/presentation.pdf''))]
   \<and> trace (snd (merge_pdfs env_write_fails [''/out/slide_1.pdf''] ''/out/presentation.pdf''
        (init page_and_old_artifact)))
     = [MergerAppend ''/out/slide_1.pdf'', OpenWb ''/out/presentation.pdf'',
        MergerWrite ''/out/presentation.pdf'']"
  by (simp add: eval2_defs)

text \<open>
  C2, as the code has it. The merge never raises. It writes in place: it opens the output
  path itself for writing and writes there, with no temporary path and no rename, the
  calls being the appends of the page files, the open, the write and the close of the
  merger. What it leaves depends on the first step that fails. With the library missing,
  a page file that cannot be appended or the open refused, the files are as they were.
  When the write raises, the output path holds a truncated file. When the write returns,
  the output path holds the pages of the page files in list order, also when the close of
  the merger then raises and a failure is logged. The appends read the files and change
  none, and they all succeed when every call succeeds and every existing page file is a
  page document.
\<close>

theorem merge_writes_in_place:
  "merge_pdfs e pdf_files output_path s =
     (if \<not> PyPDF2_importable e then (Inr (), s\<lparr>logged := logged s @ [Warning_NoPyPDF2]\<rparr>)
      else
        (case append_existing e pdf_files [] s of
           (Inl x, s1) \<Rightarrow> (Inr (), s1\<lparr>logged := logged s1 @ [Error_MergeFailed x]\<rparr>)
         | (Inr merger, s1) \<Rightarrow>
             if \<not> succeeds e (length (trace s1)) (OpenWb output_path) then
               (Inr (), s1\<lparr>trace := trace s1 @ [OpenWb output_path],
                   logged := logged s1 @ [Error_MergeFailed (CallFailed (OpenWb output_path))]\<rparr>)
             else if \<not> succeeds e (length (trace s1) + 1) (MergerWrite output_path) then
               (Inr (), s1\<lparr>files := (files s1)(output_path \<mapsto> Truncated),
                   trace := trace s1 @ [OpenWb output_path, MergerWrite output_path],
                   logged := logged s1
                     @ [Error_MergeFailed (CallFailed (MergerWrite output_path))]\<rparr>)
             else if \<not> succeeds e (length (trace s1) + 2) MergerClose then
               (Inr (), s1\<lparr>files := (files s1)(output_path \<mapsto> Pdf merger),
                   trace := trace s1 @ [OpenWb output_path, MergerWrite output_path, MergerClose],
                   logged := logged s1 @ [Error_MergeFailed (CallFailed MergerClose)]\<rparr>)
             else
               (Inr (), s1\<lparr>files := (files s1)(output_path \<mapsto> Pdf merger),
                   trace := trace s1 @ [OpenWb output_path, MergerWrite output_path, MergerClose],
                   logged := logged s1 @ [Info_MergeDone output_path]\<rparr>)))
   \<and> files (snd (append_existing e pdf_files [] s)) = files s
   \<and> logged (snd (append_existing e pdf_files [] s)) = logged s
   \<and> set (calls_since s (snd (append_existing e pdf_files [] s))) \<subseteq> MergerAppend ` set pdf_files
   \<and> (case fst (append_existing e pdf_files [] s) of
         Inr merger \<Rightarrow> merger = concat (map (pages_of s) pdf_files)
       | Inl x \<Rightarrow> x \<in> PdfReadError ` set pdf_files
                     \<union> (\<lambda>p. CallFailed (MergerAppend p)) ` set pdf_files)
   \<and> ((\<forall>n p. succeeds e n (MergerAppend p))
        \<and> (\<forall>p \<in> set pdf_files. files s p \<noteq> Some Html \<and> files s p \<noteq> Some Truncated)
       \<longrightarrow> fst (append_existing e pdf_files [] s) = Inr (concat (map (pages_of s) pdf_files)))"
proof -
  obtain cs where st: "snd (append_existing e pdf_files [] s) = s\<lparr>trace := trace s @ cs\<rparr>"
    and cs: "set cs \<subseteq> MergerAppend ` set pdf_files"
    and res: "(case fst (append_existing e pdf_files [] s) of
            Inr pages \<Rightarrow> pages = [] @ concat (map (pages_of s) pdf_files)
          | Inl x \<Rightarrow> x \<in> PdfReadError ` set pdf_files
                        \<union> (\<lambda>p. CallFailed (MergerAppend p)) ` set pdf_files)"
    using append_existing_run[of e pdf_files "[]" s] by blast
  have 1: "files (snd (append_existing e pdf_files [] s)) = files s"
    and 2: "logged (snd (append_existing e pdf_files [] s)) = logged s"
    and 3: "set (calls_since s (snd (append_existing e pdf_files [] s)))
              \<subseteq> MergerAppend ` set pdf_files"
    using cs by (simp_all add: st calls_since_def)
  have 4: "(case fst (append_existing e pdf_files [] s) of
         Inr merger \<Rightarrow> merger = concat (map (pages_of s) pdf_files)
       | Inl x \<Rightarrow> x \<in> PdfReadError ` set pdf_files
                     \<union> (\<lambda>p. CallFailed (MergerAppend p)) ` set pdf_files)"
    using res by (cases "fst (append_existing e pdf_files [] s)") simp_all
  have 5: "(\<forall>n p. succeeds e n (MergerAppend p))
        \<and> (\<forall>p \<in> set pdf_files. files s p \<noteq> Some Html \<and> files s p \<noteq> Some Truncated)
       \<longrightarrow> fst (append_existing e pdf_files [] s) = Inr (concat (map (pages_of s) pdf_files))"
    using append_existing_ok[of e pdf_files s "[]"] by simp
  show ?thesis
    using merge_pdfs_exact[of e pdf_files output_path s] 1 2 3 4 5 by blast
qed

theorem merge_in_place_witness:
  "files (snd (merge_pdfs env_ok [''/out/slide_1.pdf''] ''/out/presentation.pdf''
        (init page_and_old_artifact))) ''/out/presentation.pdf''
     = Some (Pdf [Page ''file:///slides/slide_1.html'' ''338.67mm'' ''190.5mm''])
   \<and> logged (snd (merge_pdfs env_ok [''/out/slide_1.pdf''] ''/out/presentation.pdf''
        (init page_and_old_artifact))) = [Info_MergeDone ''/out/presentation.pdf'']
   \<and> trace (snd (merge_pdfs env_ok [''/out/slide_1.pdf''] ''/out/presentation.pdf''
        (init page_and_old_artifact)))
     = [MergerAppend ''/out/slide_1.pdf'', OpenWb ''/out/presentation.pdf'',
        MergerWrite ''/out/presentation.pdf'', MergerClose]"
proof -
  have calls: "\<forall>n p. succeeds env_ok n (MergerAppend p)"
    by (simp add: env_defs)
  have docs: "\<forall>p \<in> set [''/out/slide_1.pdf''].
      files (init page_and_old_artifact) p \<noteq> Some Html
      \<and> files (init page_and_old_artifact) p \<noteq> Some Truncated"
    by (simp add: init_def page_and_old_artifact_def)
  have appended: "append_existing env_ok [''/out/slide_1.pdf''] [] (init page_and_old_artifact)
      = (Inr [Page ''file:///slides/slide_1.html'' ''338.67mm'' ''190.5mm''],
         (init page_and_old_artifact)\<lparr>trace := [MergerAppend ''/out/slide_1.pdf'']\<rparr>)"
    by (simp add: eval2_defs)
  note eq = merge_writes_in_place[of env_ok "[''/out/slide_1.pdf'']" "''/out/presentation.pdf''"
        "init page_and_old_artifact", THEN conjunct1, unfolded appended]
  have run: "merge_pdfs env_ok [''/out/slide_1.pdf''] ''/out/presentation.pdf''
        (init page_and_old_artifact)
      = (Inr (), (init page_and_old_artifact)
           \<lparr>files := (files (init page_and_old_artifact))(''/out/presentation.pdf'' \<mapsto>
                Pdf [Page ''file:///slides/slide_1.html'' ''338.67mm'' ''190.5mm'']),
             trace := [MergerAppend ''/out/slide_1.pdf'', OpenWb ''/out/presentation.pdf'',
                MergerWrite ''/out/presentation.pdf'', MergerClose],
             logged := [Info_MergeDone ''/out/presentation.pdf'']\<rparr>)"
    using eq by (simp add: env_defs init_def)
  show ?thesis
    unfolding run by (simp add: init_def)
qed

text \<open>
  C3, at an input where it fails. The browser starts, the page opens and loads, and the
  capture is refused: the render returns \<open>False\<close>, \<^verbatim>\<open>page.close\<close> has not been called, and
  the page context is still open.
\<close>

theorem capture_failure_leaves_page_open:
  "fst (convert_html_to_pdf env_capture_fails ''/slides/slide_1.html'' ''/out/slide_1.pdf''
         (init slides_1_3)) = Inr False
   \<and> open_pages (snd (convert_html_to_pdf env_capture_fails ''/slides/slide_1.html''
         ''/out/slide_1.pdf'' (init slides_1_3))) = 1
   \<and> PageClose \<notin> set (trace (snd (convert_html_to_pdf env_capture_fails ''/slides/slide_1.html''
         ''/out/slide_1.pdf'' (init slides_1_3))))"
  by (simp add: render_defs io_defs env_defs os_path_exists_def init_def slides_1_3_def
        pdf_kwargs_def)

text \<open>
  C4. A render whose source path does not exist returns \<open>False\<close> after logging that the
  HTML file is missing; it makes no call to the browser and leaves every file, the file at
  the output path included, as it was.
\<close>

theorem missing_source_fails_without_output:
  assumes "\<not> os_path_exists s html_file_path"
  shows "convert_html_to_pdf e html_file_path pdf_output_path s
           = (Inr False, s\<lparr>logged := logged s @ [Error_HtmlMissing html_file_path]\<rparr>)
         \<and> files (snd (convert_html_to_pdf e html_file_path pdf_output_path s)) = files s
         \<and> calls_since s (snd (convert_html_to_pdf e html_file_path pdf_output_path s)) = []"
  using assms by (simp add: convert_html_to_pdf_def io_defs calls_since_def)

theorem missing_source_witness:
  "\<not> os_path_exists (init slides_1_3) ''/slides/slide_2.html''
   \<and> fst (convert_html_to_pdf env_ok ''/slides/slide_2.html'' ''/out/slide_2.pdf'' (init slides_1_3))
       = Inr False
   \<and> files (snd (convert_html_to_pdf env_ok ''/slides/slide_2.html'' ''/out/slide_2.pdf''
        (init slides_1_3))) ''/out/slide_2.pdf'' = None"
proof -
  have missing: "\<not> os_path_exists (init slides_1_3) ''/slides/slide_2.html''"
    by (simp add: os_path_exists_def init_def slides_1_3_def)
  show ?thesis
    using missing
      missing_source_fails_without_output[OF missing, of env_ok "''/out/slide_2.pdf''"]
    by (simp add: init_def slides_1_3_def)
qed

text \<open>
  C5, at an input where it fails. Playwright starts, the launch of the browser raises and
  so does \<^verbatim>\<open>playwright.stop()\<close> in the teardown: the batch does not return the empty list,
  it raises the exception of the teardown.
\<close>

theorem startup_failure_teardown_raises:
  "fst (start_browser env_launch_and_stop_fail
        ((init slides_1_3)\<lparr>trace := trace (init slides_1_3) @ [Makedirs ''/out'']\<rparr>))
     = Inl (CallFailed (ChromiumLaunch True launch_args))
   \<and> fst (convert_multiple_html_to_pdf env_launch_and_stop_fail
        [''/slides/slide_1.html'', ''/slides/slide_3.html''] ''/out'' None (init slides_1_3))
     = Inl (CallFailed PlaywrightStop)"
  by (simp add: eval2_defs)

text \<open>
  C5, as the code has it. When the output directory has been made and the session start
  raises, no job is attempted: the batch logs its failure with the exception of the start
  and runs \<^verbatim>\<open>close_browser\<close> on that state, so its only calls are the directory creation,
  the attempted start and the teardown, and no file changes. Its outcome is that of the
  teardown: the empty list when \<^verbatim>\<open>close_browser\<close> returns, which it does whenever its two
  calls succeed, and the exception of \<^verbatim>\<open>browser.close()\<close> or \<^verbatim>\<open>playwright.stop()\<close> when
  one of them raises.
\<close>

theorem startup_failure_aborts_batch:
  assumes "succeeds e (length (trace s)) (Makedirs output_dir)"
    and "fst (start_browser e (s\<lparr>trace := trace s @ [Makedirs output_dir]\<rparr>)) = Inl x"
  shows "convert_multiple_html_to_pdf e html_files output_dir merged_pdf_path s
           = io_finally (io_return []) (close_browser e)
               ((snd (start_browser e (s\<lparr>trace := trace s @ [Makedirs output_dir]\<rparr>)))
                  \<lparr>logged := logged (snd (start_browser e
                                (s\<lparr>trace := trace s @ [Makedirs output_dir]\<rparr>)))
                              @ [Error_BatchFailed x]\<rparr>)
       \<and> (fst (convert_multiple_html_to_pdf e html_files output_dir merged_pdf_path s) = Inr []
          \<or> fst (convert_multiple_html_to_pdf e html_files output_dir merged_pdf_path s)
              = Inl (CallFailed BrowserClose)
          \<or> fst (convert_multiple_html_to_pdf e html_files output_dir merged_pdf_path s)
              = Inl (CallFailed PlaywrightStop))
       \<and> ((\<forall>n. succeeds e n BrowserClose \<and> succeeds e n PlaywrightStop) \<longrightarrow>
            fst (convert_multiple_html_to_pdf e html_files output_dir merged_pdf_path s) = Inr [])
       \<and> files (snd (convert_multiple_html_to_pdf e html_files output_dir merged_pdf_path s))
           = files s
       \<and> set (calls_since s
            (snd (convert_multiple_html_to_pdf e html_files output_dir merged_pdf_path s)))
           \<subseteq> {Makedirs output_dir, PlaywrightStart, ChromiumLaunch True launch_args,
               BrowserClose, PlaywrightStop}
       \<and> last (logged (snd (convert_multiple_html_to_pdf e html_files output_dir
            merged_pdf_path s))) = Error_BatchFailed x"
proof -
  let ?s0 = "s\<lparr>trace := trace s @ [Makedirs output_dir]\<rparr>"
  obtain s1 where start: "start_browser e ?s0 = (Inl x, s1)"
    using assms(2) by (cases "start_browser e ?s0") simp
  let ?t = "s1\<lparr>logged := logged s1 @ [Error_BatchFailed x]\<rparr>"
  let ?B = "convert_multiple_html_to_pdf e html_files output_dir merged_pdf_path s"
  have run: "?B = io_finally (io_return []) (close_browser e) ?t"
    by (rule batch_not_started[OF assms(1) start])
  have res: "fst ?B = (case fst (close_browser e ?t) of Inl x \<Rightarrow> Inl x | Inr u \<Rightarrow> Inr [])"
    and st: "snd ?B = snd (close_browser e ?t)"
    unfolding run by (simp_all add: finally_return)
  have 1: "fst ?B = Inr [] \<or> fst ?B = Inl (CallFailed BrowserClose)
           \<or> fst ?B = Inl (CallFailed PlaywrightStop)"
    using close_browser_Inl[of e ?t] unfolding res by (cases "fst (close_browser e ?t)") auto
  have 2: "(\<forall>n. succeeds e n BrowserClose \<and> succeeds e n PlaywrightStop) \<longrightarrow> fst ?B = Inr []"
    using close_browser_ok[of e ?t] unfolding res by auto
  have 3: "files (snd ?B) = files s"
    unfolding st using start_browser_Inl(1)[OF start] by (simp add: close_browser_frame)
  obtain cs1 where cs1: "trace s1 = trace ?s0 @ cs1"
      "set cs1 \<subseteq> {PlaywrightStart, ChromiumLaunch True launch_args}"
    using start_browser_Inl(2)[OF start] by blast
  obtain cs2 where cs2: "trace (snd (close_browser e ?t)) = trace ?t @ cs2"
      "set cs2 \<subseteq> {BrowserClose, PlaywrightStop}"
    using close_browser_trace[of e ?t] by blast
  have "calls_since s (snd ?B) = Makedirs output_dir # cs1 @ cs2"
    unfolding st calls_since_def using cs1(1) cs2(1) by simp
  then have 4: "set (calls_since s (snd ?B))
           \<subseteq> {Makedirs output_dir, PlaywrightStart, ChromiumLaunch True launch_args,
               BrowserClose, PlaywrightStop}"
    using cs1(2) cs2(2) by auto
  have 5: "last (logged (snd ?B)) = Error_BatchFailed x"
    unfolding st by (simp add: close_browser_frame)
  have 0: "?B = io_finally (io_return []) (close_browser e)
               ((snd (start_browser e ?s0))
                  \<lparr>logged := logged (snd (start_browser e ?s0)) @ [Error_BatchFailed x]\<rparr>)"
    using run start by simp
  show ?thesis using 0 1 2 3 4 5 by blast
qed

theorem startup_failure_witness:
  "succeeds env_no_playwright (length (trace (init slides_1_3))) (Makedirs ''/out'')
   \<and> fst (start_browser env_no_playwright
        ((init slides_1_3)\<lparr>trace := trace (init slides_1_3) @ [Makedirs ''/out'']\<rparr>))
       = Inl RuntimeError
   \<and> fst (convert_multiple_html_to_pdf env_no_playwright
        [''/slides/slide_1.html'', ''/slides/slide_3.html''] ''/out'' None (init slides_1_3))
       = Inr []
   \<and> files (snd (convert_multiple_html_to_pdf env_no_playwright
        [''/slides/slide_1.html'', ''/slides/slide_3.html''] ''/out'' None (init slides_1_3)))
       = slides_1_3"
proof -
  have dir: "succeeds env_no_playwright (length (trace (init slides_1_3))) (Makedirs ''/out'')"
    by (simp add: env_defs)
  have fail: "fst (start_browser env_no_playwright
        ((init slides_1_3)\<lparr>trace := trace (init slides_1_3) @ [Makedirs ''/out'']\<rparr>))
       = Inl RuntimeError"
    by (simp add: eval_defs)
  have down: "\<forall>n. succeeds env_no_playwright n BrowserClose
                  \<and> succeeds env_no_playwright n PlaywrightStop"
    by (simp add: env_defs)
  have fs: "files (init slides_1_3) = slides_1_3" by (simp add: init_def)
  show ?thesis
    using dir fail down fs
      startup_failure_aborts_batch[OF dir fail,
        of "[''/slides/slide_1.html'', ''/slides/slide_3.html'']" None, THEN conjunct2]
    by simp
qed

text \<open>
  C6. The readiness wait never raises, whatever the environment does; and a render in
  which every call other than the two readiness evaluations succeeds returns \<open>True\<close>,
  whether those two succeed or fail.
\<close>

theorem readiness_failure_absorbed:
  assumes "os_path_exists s html_file_path"
    and "is_available e"
    and "\<forall>n c. c \<noteq> EvaluateImagesLoaded \<and> c \<noteq> EvaluateFontsReady \<longrightarrow> succeeds e n c"
  shows "(\<forall>e' s'. fst (wait_for_page_ready e' s') = Inr ())
         \<and> fst (convert_html_to_pdf e html_file_path pdf_output_path s) = Inr True"
proof
  show "\<forall>e' s'. fst (wait_for_page_ready e' s') = Inr ()"
    by (simp add: wait_for_page_ready_def io_defs split: prod.splits sum.splits)
  show "fst (convert_html_to_pdf e html_file_path pdf_output_path s) = Inr True"
    using assms by (simp add: render_defs io_defs split: prod.splits sum.splits)
qed

theorem readiness_failure_witness:
  "os_path_exists (init slides_1_3) ''/slides/slide_1.html''
   \<and> is_available env_fonts_fail
   \<and> \<not> succeeds env_fonts_fail 7 EvaluateFontsReady
   \<and> fst (wait_for_page_ready env_fonts_fail (init slides_1_3)) = Inr ()
   \<and> fst (convert_html_to_pdf env_fonts_fail ''/slides/slide_1.html'' ''/out/slide_1.pdf''
        (init slides_1_3)) = Inr True"
proof -
  have 1: "os_path_exists (init slides_1_3) ''/slides/slide_1.html''"
    by (simp add: os_path_exists_def init_def slides_1_3_def)
  have 2: "is_available env_fonts_fail"
    by (simp add: is_available_def env_defs)
  have 3: "\<forall>n c. c \<noteq> EvaluateImagesLoaded \<and> c \<noteq> EvaluateFontsReady
             \<longrightarrow> succeeds env_fonts_fail n c"
    by (simp add: env_defs)
  show ?thesis
    using 1 2 readiness_failure_absorbed[OF 1 2 3, of "''/out/slide_1.pdf''"]
    by (simp add: env_defs)
qed

text \<open>
  C7. When the session starts, a non-empty merged path is given, at least one job
  succeeds and the merge library does its work, the document at the merged path after the
  batch consists of the pages of the jobs whose render returned \<open>True\<close>, and of no
  other, in job order. In the scenario of three jobs of which the second has no source,
  the renders return true, false, true and the merged document has the two pages of the
  first and the third slide.
\<close>

theorem merged_artifact_from_successful_pages:
  assumes "fst (batch_start e output_dir s) = Inr ()"
    and "m \<noteq> []"
    and "True \<in> set (job_results e output_dir 0 html_files (snd (batch_start e output_dir s)))"
    and "PyPDF2_importable e"
    and "\<forall>n p. succeeds e n (MergerAppend p)"
    and "\<forall>n. succeeds e n (OpenWb m) \<and> succeeds e n (MergerWrite m)"
  shows "files (snd (convert_multiple_html_to_pdf e html_files output_dir (Some m) s)) m
         = Some (Pdf (map (\<lambda>h. Page (file_url e h) ''338.67mm'' ''190.5mm'')
               (successful html_files
                  (job_results e output_dir 0 html_files (snd (batch_start e output_dir s))))))"
proof -
  let ?s1 = "snd (batch_start e output_dir s)"
  let ?bs = "job_results e output_dir 0 html_files ?s1"
  let ?pdfs = "successful (map (slide_pdf_path output_dir) [0..<length html_files]) ?bs"
  let ?f = "\<lambda>h. Page (file_url e h) ''338.67mm'' ''190.5mm''"
  have start: "batch_start e output_dir s = (Inr (), ?s1)"
    using assms(1) by (cases "batch_start e output_dir s") simp
  obtain s2 where loop: "convert_each e output_dir 0 html_files [] ?s1 = (Inr ?pdfs, s2)"
    using convert_each_run[of e output_dir 0 html_files "[]" ?s1] by auto
  have ne: "?pdfs \<noteq> []"
    using assms(3) by (intro successful_not_Nil) (simp_all add: length_job_results)
  have pages: "map (files s2) ?pdfs = map (\<lambda>h. Some (Pdf [?f h])) (successful html_files ?bs)"
    using convert_each_pages[of e output_dir 0 html_files "[]" ?s1] loop by simp
  let ?s3 = "snd (merge_pdfs e ?pdfs m s2)"
  have run: "convert_multiple_html_to_pdf e html_files output_dir (Some m) s
          = io_finally (io_return [m]) (close_browser e) ?s3"
    by (rule batch_merging[OF start loop assms(2) ne])
  have "files ?s3 m = Some (Pdf (concat (map (pages_of s2) ?pdfs)))"
    using assms(4,5,6) files_of_successful(1)[OF pages]
    by (intro merge_pdfs_ok) simp_all
  also have "concat (map (pages_of s2) ?pdfs) = map ?f (successful html_files ?bs)"
    by (rule files_of_successful(2)[OF pages])
  finally show ?thesis
    by (simp add: run finally_return close_browser_frame)
qed

theorem merged_artifact_witness:
  "job_results env_ok ''/out'' 0
      [''/slides/slide_1.html'', ''/slides/slide_2.html'', ''/slides/slide_3.html'']
      (snd (batch_start env_ok ''/out'' (init slides_1_3))) = [True, False, True]
   \<and> files (snd (convert_multiple_html_to_pdf env_ok
        [''/slides/slide_1.html'', ''/slides/slide_2.html'', ''/slides/slide_3.html'']
        ''/out'' (Some ''/out/presentation.pdf'') (init slides_1_3))) ''/out/presentation.pdf''
     = Some (Pdf [Page ''file:///slides/slide_1.html'' ''338.67mm'' ''190.5mm'',
                  Page ''file:///slides/slide_3.html'' ''338.67mm'' ''190.5mm''])"
proof -
  have start: "fst (batch_start env_ok ''/out'' (init slides_1_3)) = Inr ()"
    by (simp add: eval_defs)
  have jobs: "job_results env_ok ''/out'' 0
      [''/slides/slide_1.html'', ''/slides/slide_2.html'', ''/slides/slide_3.html'']
      (snd (batch_start env_ok ''/out'' (init slides_1_3))) = [True, False, True]"
    by (simp add: eval_defs)
  have some: "True \<in> set (job_results env_ok ''/out'' 0
      [''/slides/slide_1.html'', ''/slides/slide_2.html'', ''/slides/slide_3.html'']
      (snd (batch_start env_ok ''/out'' (init slides_1_3))))"
    unfolding jobs by simp
  have m: "''/out/presentation.pdf'' \<noteq> []" by simp
  have lib: "PyPDF2_importable env_ok" "\<forall>n p. succeeds env_ok n (MergerAppend p)"
    "\<forall>n. succeeds env_ok n (OpenWb ''/out/presentation.pdf'')
        \<and> succeeds env_ok n (MergerWrite ''/out/presentation.pdf'')"
    by (simp_all add: env_defs)
  show ?thesis
    using jobs merged_artifact_from_successful_pages[OF start m some lib]
    by (simp add: file_url_def env_defs)
qed

text \<open>
  C8. A render that returns \<open>True\<close> has made these calls, in this order: the start of the
  browser if there was none, the opening of the page, the viewport set to 1280 by 720,
  the navigation to the file URL, the wait, and then the capture with the width 338.67mm,
  the height 190.5mm, the background printed, the four margins 0mm, no header or footer
  and the scale 1, and the close of the page. It has set the viewport once and captured
  once, and the file at the output path is the one page captured at that size.
\<close>

theorem successful_render_capture_settings:
  assumes "fst (convert_html_to_pdf e html_file_path pdf_output_path s) = Inr True"
  shows "calls_since s (snd (convert_html_to_pdf e html_file_path pdf_output_path s))
         = start_calls s
           @ [NewPage, SetViewportSize 1280 720,
              Goto (file_url e html_file_path) ''networkidle'' 30000, Sleep 2]
           @ wait_calls e (length (trace s) + length (start_calls s) + 4)
           @ [PagePdf \<lparr>path = pdf_output_path, width = ''338.67mm'', height = ''190.5mm'',
                 print_background = True, landscape = False,
                 margin = \<lparr>top = ''0mm'', right = ''0mm'', bottom = ''0mm'', left = ''0mm''\<rparr>,
                 prefer_css_page_size = False, display_header_footer = False, scale = 1\<rparr>,
              PageClose]
       \<and> filter is_SetViewportSize
           (calls_since s (snd (convert_html_to_pdf e html_file_path pdf_output_path s)))
         = [SetViewportSize 1280 720]
       \<and> filter is_PagePdf
           (calls_since s (snd (convert_html_to_pdf e html_file_path pdf_output_path s)))
         = [PagePdf \<lparr>path = pdf_output_path, width = ''338.67mm'', height = ''190.5mm'',
               print_background = True, landscape = False,
               margin = \<lparr>top = ''0mm'', right = ''0mm'', bottom = ''0mm'', left = ''0mm''\<rparr>,
               prefer_css_page_size = False, display_header_footer = False, scale = 1\<rparr>]
       \<and> files (snd (convert_html_to_pdf e html_file_path pdf_output_path s)) pdf_output_path
         = Some (Pdf [Page (file_url e html_file_path) ''338.67mm'' ''190.5mm''])"
proof -
  obtain s' where run: "convert_html_to_pdf e html_file_path pdf_output_path s = (Inr True, s')"
    using assms by (cases "convert_html_to_pdf e html_file_path pdf_output_path s") simp
  show ?thesis
    using convert_True_run[OF run] convert_True_calls[OF run] by (simp add: run pdf_kwargs_def)
qed

theorem successful_render_witness:
  "fst (convert_html_to_pdf env_ok ''/slides/slide_1.html'' ''/out/slide_1.pdf'' (init slides_1_3))
     = Inr True
   \<and> trace (snd (convert_html_to_pdf env_ok ''/slides/slide_1.html'' ''/out/slide_1.pdf''
        (init slides_1_3)))
     = [PlaywrightStart, ChromiumLaunch True launch_args, NewPage, SetViewportSize 1280 720,
        Goto ''file:///slides/slide_1.html'' ''networkidle'' 30000, Sleep 2,
        EvaluateImagesLoaded, EvaluateFontsReady, Sleep 1,
        PagePdf (pdf_kwargs ''/out/slide_1.pdf''), PageClose]
   \<and> files (snd (convert_html_to_pdf env_ok ''/slides/slide_1.html'' ''/out/slide_1.pdf''
        (init slides_1_3))) ''/out/slide_1.pdf''
     = Some (Pdf [Page ''file:///slides/slide_1.html'' ''338.67mm'' ''190.5mm''])"
proof -
  have ok: "fst (convert_html_to_pdf env_ok ''/slides/slide_1.html'' ''/out/slide_1.pdf''
              (init slides_1_3)) = Inr True"
    by (simp add: render_defs io_defs env_defs os_path_exists_def init_def slides_1_3_def)
  have fresh: "trace (init slides_1_3) = []" "browser (init slides_1_3) = None"
    by (simp_all add: init_def)
  show ?thesis
    using ok successful_render_capture_settings[OF ok]
    by (simp add: file_url_def env_defs calls_since_def fresh start_calls_def wait_calls_def
          pdf_kwargs_def)
qed

text \<open>
  C9, at an input where it fails. A converter has rendered one document on its own and its
  browser is running. A batch is then asked for and \<^verbatim>\<open>os.makedirs\<close> raises: the batch
  raises at once, \<^verbatim>\<open>browser.close()\<close> is not called and the browser is still running.
\<close>

theorem makedirs_failure_skips_teardown:
  "browser after_single_render = Some 1
   \<and> live_browsers after_single_render = {1}
   \<and> fst (convert_multiple_html_to_pdf env_makedirs_fails [''/slides/slide_1.html''] ''/out''
          None after_single_render) = Inl (CallFailed (Makedirs ''/out''))
   \<and> browser (snd (convert_multiple_html_to_pdf env_makedirs_fails [''/slides/slide_1.html'']
          ''/out'' None after_single_render)) = Some 1
   \<and> live_browsers (snd (convert_multiple_html_to_pdf env_makedirs_fails
          [''/slides/slide_1.html''] ''/out'' None after_single_render)) = {1}
   \<and> BrowserClose \<notin> set (trace (snd (convert_multiple_html_to_pdf env_makedirs_fails
          [''/slides/slide_1.html''] ''/out'' None after_single_render)))"
  by (simp add: after_single_render_def eval2_defs)

text \<open>
  C9, as the code has it. A new converter has no session and has made no call. The first
  start launches Playwright and the browser; a start while a session is live changes
  nothing. The live browser processes are exactly the one the converter holds, so there is
  at most one, and every operation keeps it so. A batch whose output directory is made
  ends, whether its guarded block returned or caught an exception, by running
  \<^verbatim>\<open>close_browser\<close> on the state that block leaves, which holds the handles the start left:
  \<^verbatim>\<open>browser.close()\<close> is called when a browser is held, in particular whenever the start
  succeeded, and \<^verbatim>\<open>playwright.stop()\<close> when Playwright is held and the close did not raise.
  A batch that returns leaves no session. Teardown is not on every path: when
  \<^verbatim>\<open>os.makedirs\<close>, which stands before the \<^verbatim>\<open>try\<close>, raises, the batch raises at once and has
  touched nothing but the trace; and when \<^verbatim>\<open>browser.close()\<close> raises, the browser stays
  held and alive and the exception leaves the batch.
\<close>

theorem browser_session_lifecycle:
  assumes "session_inv s"
  shows "browser (init fs) = None \<and> live_browsers (init fs) = {} \<and> trace (init fs) = []
       \<and> (is_available e \<and> browser s \<noteq> None \<longrightarrow> start_browser e s = (Inr (), s))
       \<and> (browser s = None \<and> fst (start_browser e s) = Inr () \<longrightarrow>
            calls_since s (snd (start_browser e s))
              = [PlaywrightStart, ChromiumLaunch True launch_args]
            \<and> browser (snd (start_browser e s)) = Some (Suc (length (trace s))))
       \<and> card (live_browsers s) \<le> 1
       \<and> session_inv (snd (start_browser e s))
       \<and> session_inv (snd (close_browser e s))
       \<and> session_inv (snd (convert_html_to_pdf e h p s))
       \<and> session_inv (snd (convert_multiple_html_to_pdf e hs out merged s))
       \<and> (succeeds e (length (trace s)) (Makedirs out) \<longrightarrow>
            snd (convert_multiple_html_to_pdf e hs out merged s)
              = snd (close_browser e
                  (snd (batch_try e hs out merged (s\<lparr>trace := trace s @ [Makedirs out]\<rparr>))))
            \<and> fst (convert_multiple_html_to_pdf e hs out merged s)
              = (case fst (close_browser e
                    (snd (batch_try e hs out merged (s\<lparr>trace := trace s @ [Makedirs out]\<rparr>))))
                 of Inl y \<Rightarrow> Inl y
                  | Inr u \<Rightarrow>
                      fst (batch_try e hs out merged (s\<lparr>trace := trace s @ [Makedirs out]\<rparr>)))
            \<and> calls_since
                 (snd (batch_try e hs out merged (s\<lparr>trace := trace s @ [Makedirs out]\<rparr>)))
                 (snd (convert_multiple_html_to_pdf e hs out merged s))
              = teardown_calls e
                  (snd (batch_try e hs out merged (s\<lparr>trace := trace s @ [Makedirs out]\<rparr>)))
            \<and> browser (snd (batch_try e hs out merged (s\<lparr>trace := trace s @ [Makedirs out]\<rparr>)))
              = browser (snd (start_browser e (s\<lparr>trace := trace s @ [Makedirs out]\<rparr>)))
            \<and> playwright
                 (snd (batch_try e hs out merged (s\<lparr>trace := trace s @ [Makedirs out]\<rparr>)))
              = playwright (snd (start_browser e (s\<lparr>trace := trace s @ [Makedirs out]\<rparr>)))
            \<and> (fst (start_browser e (s\<lparr>trace := trace s @ [Makedirs out]\<rparr>)) = Inr () \<longrightarrow>
                 BrowserClose \<in> set (calls_since
                   (snd (batch_try e hs out merged (s\<lparr>trace := trace s @ [Makedirs out]\<rparr>)))
                   (snd (convert_multiple_html_to_pdf e hs out merged s)))))
       \<and> (\<forall>r. fst (convert_multiple_html_to_pdf e hs out merged s) = Inr r \<longrightarrow>
            browser (snd (convert_multiple_html_to_pdf e hs out merged s)) = None
            \<and> playwright (snd (convert_multiple_html_to_pdf e hs out merged s)) = None
            \<and> live_browsers (snd (convert_multiple_html_to_pdf e hs out merged s)) = {})
       \<and> (\<forall>b. browser s = Some b \<and> \<not> succeeds e (length (trace s)) BrowserClose \<longrightarrow>
            fst (close_browser e s) = Inl (CallFailed BrowserClose)
            \<and> browser (snd (close_browser e s)) = Some b
            \<and> live_browsers (snd (close_browser e s)) = live_browsers s)
       \<and> (\<not> succeeds e (length (trace s)) (Makedirs out) \<longrightarrow>
            convert_multiple_html_to_pdf e hs out merged s
              = (Inl (CallFailed (Makedirs out)), s\<lparr>trace := trace s @ [Makedirs out]\<rparr>))"
proof -
  let ?B = "convert_multiple_html_to_pdf e hs out merged s"
  let ?s0 = "s\<lparr>trace := trace s @ [Makedirs out]\<rparr>"
  let ?T = "snd (batch_try e hs out merged ?s0)"
  have 1: "browser (init fs) = None \<and> live_browsers (init fs) = {} \<and> trace (init fs) = []"
    by (simp add: init_def)
  have 2: "is_available e \<and> browser s \<noteq> None \<longrightarrow> start_browser e s = (Inr (), s)"
    by (simp add: start_browser_def io_return_def)
  have first: "browser s = None \<and> fst (start_browser e s) = Inr () \<longrightarrow>
            calls_since s (snd (start_browser e s))
              = [PlaywrightStart, ChromiumLaunch True launch_args]
            \<and> browser (snd (start_browser e s)) = Some (Suc (length (trace s)))"
    using start_browser_fresh[of s e] by blast
  have 3: "card (live_browsers s) \<le> 1" using assms by (rule session_inv_card)
  have 4: "session_inv (snd (start_browser e s))" "session_inv (snd (close_browser e s))"
    "session_inv (snd (convert_html_to_pdf e h p s))" "session_inv (snd ?B)"
    using assms
    by (simp_all add: session_invD start_browser_inv close_browser_inv convert_inv batch_inv)
  have run: "?B = io_finally (batch_try e hs out merged) (close_browser e) ?s0"
    if dir: "succeeds e (length (trace s)) (Makedirs out)"
    using dir by (simp add: batch_unfold io_seq_def io_bind_def ext_def)
  have 5: "snd ?B = snd (close_browser e ?T)
        \<and> fst ?B = (case fst (close_browser e ?T) of
                      Inl y \<Rightarrow> Inl y
                    | Inr u \<Rightarrow> fst (batch_try e hs out merged ?s0))
        \<and> calls_since ?T (snd ?B) = teardown_calls e ?T
        \<and> browser ?T = browser (snd (start_browser e ?s0))
        \<and> playwright ?T = playwright (snd (start_browser e ?s0))
        \<and> (fst (start_browser e ?s0) = Inr () \<longrightarrow>
             BrowserClose \<in> set (calls_since ?T (snd ?B)))"
    if dir: "succeeds e (length (trace s)) (Makedirs out)"
  proof -
    have a: "snd ?B = snd (close_browser e ?T)"
      and b: "fst ?B = (case fst (close_browser e ?T) of
                      Inl y \<Rightarrow> Inl y
                    | Inr u \<Rightarrow> fst (batch_try e hs out merged ?s0))"
      unfolding run[OF dir] by (simp_all add: finally_fst)
    have c: "calls_since ?T (snd ?B) = teardown_calls e ?T"
      unfolding a by (rule close_browser_calls)
    have d: "browser ?T = browser (snd (start_browser e ?s0))"
      "playwright ?T = playwright (snd (start_browser e ?s0))"
      by (rule batch_try_handles)+
    have f: "BrowserClose \<in> set (calls_since ?T (snd ?B))"
      if ok: "fst (start_browser e ?s0) = Inr ()"
    proof -
      have "start_browser e ?s0 = (Inr (), snd (start_browser e ?s0))"
        using ok by (cases "start_browser e ?s0") simp
      then have "browser (snd (start_browser e ?s0)) \<noteq> None"
        by (rule start_browser_Inr_browser)
      then have "browser ?T \<noteq> None" using d(1) by simp
      then show ?thesis unfolding c by (simp add: teardown_calls_def)
    qed
    show ?thesis using a b c d f by blast
  qed
  have 7: "?B = (Inl (CallFailed (Makedirs out)), s\<lparr>trace := trace s @ [Makedirs out]\<rparr>)"
    if "\<not> succeeds e (length (trace s)) (Makedirs out)"
    using that by (rule batch_no_dir)
  have 6: "browser (snd ?B) = None \<and> playwright (snd ?B) = None \<and> live_browsers (snd ?B) = {}"
    if ret: "fst ?B = Inr r" for r
  proof -
    have dir: "succeeds e (length (trace s)) (Makedirs out)"
      using 7 ret by (cases "succeeds e (length (trace s)) (Makedirs out)") auto
    have "fst (close_browser e ?T) = Inr ()"
      using ret 5[OF dir] by (cases "fst (close_browser e ?T)") simp_all
    then have "browser (snd ?B) = None \<and> playwright (snd ?B) = None"
      using 5[OF dir] by (simp add: close_browser_Inr)
    moreover have "session_inv (snd ?B)" by (rule 4)
    ultimately show ?thesis by (simp add: session_inv_def)
  qed
  have 8: "fst (close_browser e s) = Inl (CallFailed BrowserClose)
            \<and> browser (snd (close_browser e s)) = Some b
            \<and> live_browsers (snd (close_browser e s)) = live_browsers s"
    if "browser s = Some b \<and> \<not> succeeds e (length (trace s)) BrowserClose" for b
    using that close_browser_raises[of s b e] by blast
  show ?thesis
    apply (intro conjI)
    using 1 apply blast
    using 1 apply blast
    using 1 apply blast
    using 2 apply blast
    using first apply blast
    using 3 apply blast
    using 4 apply blast
    using 4 apply blast
    using 4 apply blast
    using 4 apply blast
    using 5 apply blast
    using 6 apply blast
    using 8 apply blast
    using 7 apply blast
    done
qed

theorem browser_session_witness:
  "session_inv (init slides_1_3)
   \<and> start_browser env_ok (snd (start_browser env_ok (init slides_1_3)))
       = (Inr (), snd (start_browser env_ok (init slides_1_3)))
   \<and> live_browsers (snd (start_browser env_ok (init slides_1_3))) = {1}
   \<and> fst (convert_multiple_html_to_pdf env_ok [''/slides/slide_1.html''] ''/out'' None
        (init slides_1_3)) = Inr [''/out/slide_1.pdf'']
   \<and> browser (snd (convert_multiple_html_to_pdf env_ok [''/slides/slide_1.html''] ''/out'' None
        (init slides_1_3))) = None
   \<and> live_browsers (snd (convert_multiple_html_to_pdf env_ok [''/slides/slide_1.html''] ''/out''
        None (init slides_1_3))) = {}
   \<and> calls_since
        (snd (batch_try env_ok [''/slides/slide_1.html''] ''/out'' None
           ((init slides_1_3)\<lparr>trace := trace (init slides_1_3) @ [Makedirs ''/out'']\<rparr>)))
        (snd (convert_multiple_html_to_pdf env_ok [''/slides/slide_1.html''] ''/out'' None
           (init slides_1_3)))
       = [BrowserClose, PlaywrightStop]"
proof -
  have inv: "session_inv (init slides_1_3)"
    by (simp add: session_inv_def init_def)
  have twice: "start_browser env_ok (snd (start_browser env_ok (init slides_1_3)))
       = (Inr (), snd (start_browser env_ok (init slides_1_3)))"
    and live: "live_browsers (snd (start_browser env_ok (init slides_1_3))) = {1}"
    by (simp_all add: eval_defs)
  have run: "fst (convert_multiple_html_to_pdf env_ok [''/slides/slide_1.html''] ''/out'' None
        (init slides_1_3)) = Inr [''/out/slide_1.pdf'']"
    by (simp add: eval2_defs)
  have dir: "succeeds env_ok (length (trace (init slides_1_3))) (Makedirs ''/out'')"
    by (simp add: env_defs)
  have td: "teardown_calls env_ok
        (snd (batch_try env_ok [''/slides/slide_1.html''] ''/out'' None
           ((init slides_1_3)\<lparr>trace := trace (init slides_1_3) @ [Makedirs ''/out'']\<rparr>)))
      = [BrowserClose, PlaywrightStop]"
    by (simp add: teardown_calls_def batch_try_def eval2_defs)
  note cycle = browser_session_lifecycle[OF inv, of slides_1_3 env_ok "''/slides/slide_1.html''"
        "''/out/slide_1.pdf''" "[''/slides/slide_1.html'']" "''/out''" None]
  have gone: "browser (snd (convert_multiple_html_to_pdf env_ok [''/slides/slide_1.html'']
        ''/out'' None (init slides_1_3))) = None
     \<and> live_browsers (snd (convert_multiple_html_to_pdf env_ok [''/slides/slide_1.html'']
        ''/out'' None (init slides_1_3))) = {}"
    using cycle run by blast
  have calls: "calls_since
        (snd (batch_try env_ok [''/slides/slide_1.html''] ''/out'' None
           ((init slides_1_3)\<lparr>trace := trace (init slides_1_3) @ [Makedirs ''/out'']\<rparr>)))
        (snd (convert_multiple_html_to_pdf env_ok [''/slides/slide_1.html''] ''/out'' None
           (init slides_1_3)))
       = [BrowserClose, PlaywrightStop]"
    using cycle dir td by metis
  show ?thesis
    using inv twice live run gone calls by blast
qed

text \<open>
  C10, at an input where it fails. The one job succeeds and the merge writes the merged
  document, then \<^verbatim>\<open>browser.close()\<close> raises in the teardown: the batch does not return the
  merged path, it raises the exception of the teardown.
\<close>

theorem teardown_failure_replaces_merged_path:
  "job_results env_browser_close_fails ''/out'' 0 [''/slides/slide_1.html'']
      (snd (batch_start env_browser_close_fails ''/out'' (init slides_1_3))) = [True]
   \<and> fst (convert_multiple_html_to_pdf env_browser_close_fails [''/slides/slide_1.html''] ''/out''
          (Some ''/out/presentation.pdf'') (init slides_1_3)) = Inl (CallFailed BrowserClose)
   \<and> files (snd (convert_multiple_html_to_pdf env_browser_close_fails [''/slides/slide_1.html'']
          ''/out'' (Some ''/out/presentation.pdf'') (init slides_1_3))) ''/out/presentation.pdf''
     = Some (Pdf [Page ''file:///slides/slide_1.html'' ''338.67mm'' ''190.5mm''])"
  by (simp add: eval2_defs)

text \<open>
  C10, as the code has it. When the session starts, a non-empty merged path is given and
  at least one job succeeds, the batch runs the merge on the page files of the successful
  jobs and then the teardown, and its outcome is that of the teardown whatever the merge
  did: the one-element list of the merged path when \<^verbatim>\<open>close_browser\<close> returns, which it
  does whenever its two calls succeed, and the exception of the teardown otherwise. With
  PyPDF2 missing the path returned names a file that does not exist.
\<close>

theorem merged_path_returned_whatever_the_merge_does:
  assumes "fst (batch_start e output_dir s) = Inr ()"
    and "m \<noteq> []"
    and "True \<in> set (job_results e output_dir 0 html_files (snd (batch_start e output_dir s)))"
  shows "convert_multiple_html_to_pdf e html_files output_dir (Some m) s
           = io_finally (io_return [m]) (close_browser e)
               (snd (merge_pdfs e
                  (successful (map (slide_pdf_path output_dir) [0..<length html_files])
                     (job_results e output_dir 0 html_files (snd (batch_start e output_dir s))))
                  m
                  (snd (convert_each e output_dir 0 html_files []
                          (snd (batch_start e output_dir s))))))
       \<and> (fst (convert_multiple_html_to_pdf e html_files output_dir (Some m) s) = Inr [m]
          \<or> fst (convert_multiple_html_to_pdf e html_files output_dir (Some m) s)
              = Inl (CallFailed BrowserClose)
          \<or> fst (convert_multiple_html_to_pdf e html_files output_dir (Some m) s)
              = Inl (CallFailed PlaywrightStop))
       \<and> ((\<forall>n. succeeds e n BrowserClose \<and> succeeds e n PlaywrightStop) \<longrightarrow>
            fst (convert_multiple_html_to_pdf e html_files output_dir (Some m) s) = Inr [m])"
proof -
  let ?s1 = "snd (batch_start e output_dir s)"
  let ?pdfs = "successful (map (slide_pdf_path output_dir) [0..<length html_files])
                 (job_results e output_dir 0 html_files ?s1)"
  have start: "batch_start e output_dir s = (Inr (), ?s1)"
    using assms(1) by (cases "batch_start e output_dir s") simp
  obtain s2 where loop: "convert_each e output_dir 0 html_files [] ?s1 = (Inr ?pdfs, s2)"
    using convert_each_run[of e output_dir 0 html_files "[]" ?s1] by auto
  have ne: "?pdfs \<noteq> []"
    using assms(3) by (intro successful_not_Nil) (simp_all add: length_job_results)
  let ?s3 = "snd (merge_pdfs e ?pdfs m s2)"
  have run: "convert_multiple_html_to_pdf e html_files output_dir (Some m) s
          = io_finally (io_return [m]) (close_browser e) ?s3"
    by (rule batch_merging[OF start loop assms(2) ne])
  have s2: "s2 = snd (convert_each e output_dir 0 html_files [] ?s1)"
    using loop by simp
  have eq: "convert_multiple_html_to_pdf e html_files output_dir (Some m) s
          = io_finally (io_return [m]) (close_browser e)
              (snd (merge_pdfs e ?pdfs m (snd (convert_each e output_dir 0 html_files [] ?s1))))"
    using run unfolding s2 .
  have rest: "(fst (convert_multiple_html_to_pdf e html_files output_dir (Some m) s) = Inr [m]
          \<or> fst (convert_multiple_html_to_pdf e html_files output_dir (Some m) s)
              = Inl (CallFailed BrowserClose)
          \<or> fst (convert_multiple_html_to_pdf e html_files output_dir (Some m) s)
              = Inl (CallFailed PlaywrightStop))
       \<and> ((\<forall>n. succeeds e n BrowserClose \<and> succeeds e n PlaywrightStop) \<longrightarrow>
            fst (convert_multiple_html_to_pdf e html_files output_dir (Some m) s) = Inr [m])"
  proof (cases "fst (close_browser e ?s3)")
    case (Inl x)
    then show ?thesis
      using close_browser_Inl[OF Inl] close_browser_ok[of e ?s3]
      by (auto simp: run finally_return)
  next
    case (Inr u)
    then show ?thesis by (simp add: run finally_return)
  qed
  show ?thesis using eq rest by blast
qed



theorem merged_path_witness:
  "fst (convert_multiple_html_to_pdf env_no_pypdf2 [''/slides/slide_1.html''] ''/out''
          (Some ''/out/presentation.pdf'') (init slides_1_3)) = Inr [''/out/presentation.pdf'']
   \<and> files (snd (convert_multiple_html_to_pdf env_no_pypdf2 [''/slides/slide_1.html''] ''/out''
          (Some ''/out/presentation.pdf'') (init slides_1_3))) ''/out/presentation.pdf'' = None
   \<and> Warning_NoPyPDF2 \<in> set (logged (snd (convert_multiple_html_to_pdf env_no_pypdf2
          [''/slides/slide_1.html''] ''/out'' (Some ''/out/presentation.pdf'') (init slides_1_3))))"
proof -
  have start: "fst (batch_start env_no_pypdf2 ''/out'' (init slides_1_3)) = Inr ()"
    by (simp add: eval_defs)
  have some: "True \<in> set (job_results env_no_pypdf2 ''/out'' 0 [''/slides/slide_1.html'']
      (snd (batch_start env_no_pypdf2 ''/out'' (init slides_1_3))))"
    by (simp add: eval_defs)
  have m: "''/out/presentation.pdf'' \<noteq> []" by simp
  have down: "\<forall>n. succeeds env_no_pypdf2 n BrowserClose \<and> succeeds env_no_pypdf2 n PlaywrightStop"
    by (simp add: env_defs)
  have state: "files (snd (convert_multiple_html_to_pdf env_no_pypdf2 [''/slides/slide_1.html'']
          ''/out'' (Some ''/out/presentation.pdf'') (init slides_1_3))) ''/out/presentation.pdf''
        = None
     \<and> Warning_NoPyPDF2 \<in> set (logged (snd (convert_multiple_html_to_pdf env_no_pypdf2
          [''/slides/slide_1.html''] ''/out'' (Some ''/out/presentation.pdf'') (init slides_1_3))))"
    by (simp add: eval2_defs)
  show ?thesis
    using state down merged_path_returned_whatever_the_merge_does[OF start m some]
    by blast
qed

end
